theory Spec2Isabelle
  imports Complex_Main "HOL-Library.Monad_Syntax"
begin

section \<open>Memory model\<close>

text \<open>
  The C code works on heap structures through pointers. A pointer is an address or
  NULL (\<open>None\<close>); every structure type has a heap of its own, a list of cells indexed by
  address, where a freed cell is \<open>None\<close>. An allocation appends a cell, so the address it
  returns is always fresh. Every function that dereferences a pointer returns an
  \<open>option\<close>: \<open>None\<close> stands for the undefined behaviour of C on a NULL, dangling or
  wrongly typed pointer. \<open>cs_real_t\<close> and \<open>double\<close> are modelled by exact reals.
\<close>

type_synonym addr = nat
type_synonym 'a heap = "'a option list"

definition heap_get :: "'a heap \<Rightarrow> addr \<Rightarrow> 'a option" where
  "heap_get h a = (if a < length h then h ! a else None)"

definition heap_free :: "addr \<Rightarrow> 'a heap \<Rightarrow> 'a heap option" where
  "heap_free a h = (if heap_get h a = None then None else Some (h[a := None]))"

section \<open>Parameter structures (cs\_param\_saddle.h, cs\_param\_sles.h)\<close>

datatype cs_param_solver_class_t =
    CS_PARAM_SOLVER_CLASS_CS
  | CS_PARAM_SOLVER_CLASS_HYPRE
  | CS_PARAM_SOLVER_CLASS_MUMPS
  | CS_PARAM_SOLVER_CLASS_PETSC
  | CS_PARAM_N_SOLVER_CLASSES

datatype cs_param_saddle_solver_t =
    CS_PARAM_SADDLE_SOLVER_NONE
  | CS_PARAM_SADDLE_SOLVER_ALU
  | CS_PARAM_SADDLE_SOLVER_FGMRES
  | CS_PARAM_SADDLE_SOLVER_GCR
  | CS_PARAM_SADDLE_SOLVER_GKB
  | CS_PARAM_SADDLE_SOLVER_MINRES
  | CS_PARAM_SADDLE_SOLVER_MUMPS
  | CS_PARAM_SADDLE_SOLVER_NOTAY_TRANSFORM
  | CS_PARAM_SADDLE_SOLVER_UZAWA_CG
  | CS_PARAM_SADDLE_N_SOLVERS

datatype cs_param_saddle_precond_t =
    CS_PARAM_SADDLE_PRECOND_NONE
  | CS_PARAM_SADDLE_PRECOND_DIAG
  | CS_PARAM_SADDLE_PRECOND_LOWER
  | CS_PARAM_SADDLE_PRECOND_SGS
  | CS_PARAM_SADDLE_PRECOND_UPPER
  | CS_PARAM_SADDLE_PRECOND_UZAWA

datatype cs_param_saddle_schur_approx_t =
    CS_PARAM_SADDLE_SCHUR_NONE
  | CS_PARAM_SADDLE_SCHUR_DIAG_INVERSE
  | CS_PARAM_SADDLE_SCHUR_IDENTITY
  | CS_PARAM_SADDLE_SCHUR_LUMPED_INVERSE
  | CS_PARAM_SADDLE_SCHUR_MASS_SCALED
  | CS_PARAM_SADDLE_SCHUR_MASS_SCALED_DIAG_INVERSE
  | CS_PARAM_SADDLE_SCHUR_MASS_SCALED_LUMPED_INVERSE

text \<open>
  The enumerations of cs\_param\_types.h are not part of the sources at hand. Each one
  gets a constructor for the member the code names and one for every other member,
  by its number.
\<close>

datatype cs_param_precond_type_t = CS_PARAM_PRECOND_AMG | CS_PARAM_PRECOND_OTHER nat
datatype cs_param_solver_type_t = CS_PARAM_SOLVER_FCG | CS_PARAM_SOLVER_OTHER nat
datatype cs_param_amg_type_t = CS_PARAM_AMG_INHOUSE_K | CS_PARAM_AMG_OTHER nat

record cs_param_convergence_t =
  atol :: real
  rtol :: real
  dtol :: real
  n_max_iter :: int

text \<open>
  Modelled from the spec: the structure \<open>cs_param_sles_t\<close> (cs\_param\_sles.h is missing).
  The spec lists the parameters of one linear solver: iterative method, preconditioner,
  AMG type, tolerances and iteration cap, owning backend. The name and the field id
  are the arguments of \<open>cs_param_sles_create\<close> in the code.
\<close>

record cs_param_sles_t =
  sles_name :: string
  sles_field_id :: int
  sles_solver_class :: cs_param_solver_class_t
  sles_precond :: cs_param_precond_type_t
  sles_solver :: cs_param_solver_type_t
  sles_amg_type :: cs_param_amg_type_t
  sles_cvg_param :: cs_param_convergence_t

text \<open>
  The context of a saddle-point solver is an untyped pointer in C, read according to the
  solver. A cell of the context heap remembers which structure was allocated there:
  \<open>Context_alu augmentation_scaling dedicated_xtra_sles\<close>,
  \<open>Context_gkb augmentation_scaling truncation_threshold dedicated_xtra_sles\<close>,
  \<open>Context_block_krylov n_stored_directions\<close>, \<open>Context_notay scaling_coef\<close>.
\<close>

datatype cs_param_saddle_context_t =
    Context_alu real bool
  | Context_gkb real int bool
  | Context_block_krylov int
  | Context_notay real

record cs_param_saddle_t =
  verbosity :: int
  name :: "string option"
  solver_class :: cs_param_solver_class_t
  solver :: cs_param_saddle_solver_t
  precond :: cs_param_saddle_precond_t
  schur_approx :: cs_param_saddle_schur_approx_t
  cvg_param :: cs_param_convergence_t
  block11_sles_param :: "addr option"
  schur_sles_param :: "addr option"
  xtra_sles_param :: "addr option"
  context_ptr :: "addr option"

text \<open>
  The state of the process: the three heaps, the global threshold \<open>epzero\<close> of the
  linear solvers (cs\_sles.c) and the lines written to the warning log.
\<close>

record mem =
  saddle_heap :: "cs_param_saddle_t heap"
  sles_heap :: "cs_param_sles_t heap"
  ctx_heap :: "cs_param_saddle_context_t heap"
  epzero :: real
  warnings :: "string list"

text \<open>
  The functions of cs\_param\_sles.c that the code calls and whose bodies are missing:
  the check of a solver class against the libraries the build has, and the default
  settings a new \<open>cs_param_sles_t\<close> gets for a field id and a name. Both are parameters
  of the model.
\<close>

record cs_ext =
  cs_param_sles_check_class :: "cs_param_solver_class_t \<Rightarrow> cs_param_solver_class_t"
  cs_param_sles_defaults :: "int \<Rightarrow> string \<Rightarrow> cs_param_sles_t"

subsection \<open>Reading and writing through pointers\<close>

definition get_saddle :: "addr option \<Rightarrow> mem \<Rightarrow> cs_param_saddle_t option" where
  "get_saddle p m = (case p of None \<Rightarrow> None | Some a \<Rightarrow> heap_get (saddle_heap m) a)"

definition get_sles :: "addr option \<Rightarrow> mem \<Rightarrow> cs_param_sles_t option" where
  "get_sles p m = (case p of None \<Rightarrow> None | Some a \<Rightarrow> heap_get (sles_heap m) a)"

definition get_ctx :: "addr option \<Rightarrow> mem \<Rightarrow> cs_param_saddle_context_t option" where
  "get_ctx p m = (case p of None \<Rightarrow> None | Some a \<Rightarrow> heap_get (ctx_heap m) a)"

definition upd_saddle ::
  "addr \<Rightarrow> (cs_param_saddle_t \<Rightarrow> cs_param_saddle_t) \<Rightarrow> mem \<Rightarrow> mem option" where
  "upd_saddle a f m =
     (case heap_get (saddle_heap m) a of
        None \<Rightarrow> None
      | Some p \<Rightarrow> Some (m\<lparr>saddle_heap := (saddle_heap m)[a := Some (f p)]\<rparr>))"

definition upd_sles ::
  "addr \<Rightarrow> (cs_param_sles_t \<Rightarrow> cs_param_sles_t) \<Rightarrow> mem \<Rightarrow> mem option" where
  "upd_sles a f m =
     (case heap_get (sles_heap m) a of
        None \<Rightarrow> None
      | Some s \<Rightarrow> Some (m\<lparr>sles_heap := (sles_heap m)[a := Some (f s)]\<rparr>))"

definition upd_ctx ::
  "addr \<Rightarrow> (cs_param_saddle_context_t \<Rightarrow> cs_param_saddle_context_t option) \<Rightarrow> mem \<Rightarrow> mem option"
  where
  "upd_ctx a f m =
     (case heap_get (ctx_heap m) a of
        None \<Rightarrow> None
      | Some c \<Rightarrow>
          (case f c of
             None \<Rightarrow> None
           | Some c' \<Rightarrow> Some (m\<lparr>ctx_heap := (ctx_heap m)[a := Some c']\<rparr>)))"

text \<open>\<open>BFT_MALLOC\<close> of one context structure, filled with its default values.\<close>

definition malloc_ctx :: "cs_param_saddle_context_t \<Rightarrow> mem \<Rightarrow> addr \<times> mem" where
  "malloc_ctx c m = (length (ctx_heap m), m\<lparr>ctx_heap := ctx_heap m @ [Some c]\<rparr>)"

text \<open>\<open>BFT_FREE\<close> of a context: the block goes back to the allocator.\<close>

definition free_ctx :: "addr \<Rightarrow> mem \<Rightarrow> mem option" where
  "free_ctx a m =
     (case heap_free a (ctx_heap m) of
        None \<Rightarrow> None
      | Some h \<Rightarrow> Some (m\<lparr>ctx_heap := h\<rparr>))"

subsection \<open>The functions of cs\_param\_sles.c\<close>

text \<open>
  Modelled from the spec: \<open>cs_param_sles_create\<close> (cs\_param\_sles.c is missing) allocates
  a new structure holding the default settings for the field id and the name.
\<close>

definition cs_param_sles_create :: "cs_ext \<Rightarrow> int \<Rightarrow> string \<Rightarrow> mem \<Rightarrow> addr \<times> mem" where
  "cs_param_sles_create X field_id nm m =
     (length (sles_heap m),
      m\<lparr>sles_heap := sles_heap m @ [Some (cs_param_sles_defaults X field_id nm)]\<rparr>)"

text \<open>
  Modelled from the spec: \<open>cs_param_sles_free\<close> (cs\_param\_sles.c is missing) releases
  the structure a \<open>ParamSaddle\<close> owns; the caller's pointer becomes NULL. Nothing
  happens on a NULL pointer.
\<close>

definition cs_param_sles_free :: "addr option \<Rightarrow> mem \<Rightarrow> mem option" where
  "cs_param_sles_free p m =
     (case p of
        None \<Rightarrow> Some m
      | Some a \<Rightarrow>
          (case heap_free a (sles_heap m) of
             None \<Rightarrow> None
           | Some h \<Rightarrow> Some (m\<lparr>sles_heap := h\<rparr>)))"

text \<open>
  Modelled from the spec: \<open>cs_param_sles_copy_from\<close> (cs\_param\_sles.c is missing) is the
  deep clone of the spec: every setting of the source goes to the destination, which
  keeps the name it was created with.
\<close>

definition cs_param_sles_copy_from :: "addr option \<Rightarrow> addr option \<Rightarrow> mem \<Rightarrow> mem option" where
  "cs_param_sles_copy_from src dst m =
     (case get_sles src m of
        None \<Rightarrow> None
      | Some s \<Rightarrow>
          (case dst of
             None \<Rightarrow> None
           | Some d \<Rightarrow> upd_sles d (\<lambda>old. s\<lparr>sles_name := sles_name old\<rparr>) m))"

text \<open>
  Modelled from the spec: \<open>cs_sles_set_epzero\<close> (cs\_sles.c is missing) sets the
  threshold under which the linear solvers of the whole process take a value for zero.
\<close>

definition cs_sles_set_epzero :: "real \<Rightarrow> mem \<Rightarrow> mem" where
  "cs_sles_set_epzero v m = m\<lparr>epzero := v\<rparr>"

text \<open>\<open>cs_base_warn\<close> and \<open>cs_log_printf(CS_LOG_WARNINGS, ...)\<close>: one more line in the log.\<close>

definition cs_log_warning :: "string \<Rightarrow> mem \<Rightarrow> mem" where
  "cs_log_warning s m = m\<lparr>warnings := warnings m @ [s]\<rparr>"

section \<open>cs\_param\_saddle.c\<close>

subsection \<open>Creation, name, (1,1)-block\<close>

text \<open>
  \<open>cs_param_saddle_create\<close>: the structure comes from \<open>BFT_MALLOC\<close> and the code leaves
  \<open>block11_sles_param\<close> as the allocator gave it; \<open>junk\<close> is that value.
\<close>

definition cs_param_saddle_create :: "addr option \<Rightarrow> mem \<Rightarrow> addr \<times> mem" where
  "cs_param_saddle_create junk m =
     (length (saddle_heap m),
      m\<lparr>saddle_heap := saddle_heap m @
        [Some \<lparr>verbosity = 0,
               name = None,
               solver_class = CS_PARAM_SOLVER_CLASS_CS,
               solver = CS_PARAM_SADDLE_SOLVER_NONE,
               precond = CS_PARAM_SADDLE_PRECOND_NONE,
               schur_approx = CS_PARAM_SADDLE_SCHUR_NONE,
               cvg_param = \<lparr>atol = 1 / 10 ^ 12, rtol = 1 / 10 ^ 6, dtol = 10 ^ 3,
                            n_max_iter = 100\<rparr>,
               block11_sles_param = junk,
               schur_sles_param = None,
               xtra_sles_param = None,
               context_ptr = None\<rparr>]\<rparr>)"

definition cs_param_saddle_get_name :: "addr option \<Rightarrow> mem \<Rightarrow> string option" where
  "cs_param_saddle_get_name saddlep m =
     (case saddlep of
        None \<Rightarrow> Some ''Undefined''
      | Some a \<Rightarrow>
          (case heap_get (saddle_heap m) a of
             None \<Rightarrow> None
           | Some p \<Rightarrow>
               (case name p of
                  Some n \<Rightarrow> Some n
                | None \<Rightarrow>
                    (if block11_sles_param p \<noteq> None
                     then map_option sles_name (get_sles (block11_sles_param p) m)
                     else Some ''Undefined''))))"

definition cs_param_saddle_set_name :: "string \<Rightarrow> addr option \<Rightarrow> mem \<Rightarrow> mem option" where
  "cs_param_saddle_set_name nm saddlep m =
     (case saddlep of
        None \<Rightarrow> Some m
      | Some a \<Rightarrow> upd_saddle a (\<lambda>p. p\<lparr>name := Some nm\<rparr>) m)"

definition cs_param_saddle_set_block11_sles_param ::
  "addr option \<Rightarrow> addr option \<Rightarrow> mem \<Rightarrow> mem option" where
  "cs_param_saddle_set_block11_sles_param saddlep block11_slesp m =
     (case saddlep of
        None \<Rightarrow> Some m
      | Some a \<Rightarrow> upd_saddle a (\<lambda>p. p\<lparr>block11_sles_param := block11_slesp\<rparr>) m)"

subsection \<open>The nested solver parameters\<close>

text \<open>\<open>_init_schur_slesp\<close> (a name cannot start with an underscore here).\<close>

definition init_schur_slesp :: "cs_ext \<Rightarrow> addr option \<Rightarrow> mem \<Rightarrow> mem option" where
  "init_schur_slesp X saddlep m =
     (case saddlep of
        None \<Rightarrow> Some m
      | Some a \<Rightarrow> do {
          p \<leftarrow> heap_get (saddle_heap m) a;
          m \<leftarrow> (if schur_sles_param p \<noteq> None
                then do {
                  m \<leftarrow> cs_param_sles_free (schur_sles_param p) m;
                  upd_saddle a (\<lambda>p. p\<lparr>schur_sles_param := None\<rparr>) m }
                else Some m);
          basename \<leftarrow> cs_param_saddle_get_name saddlep m;
          let (schurp, m) = cs_param_sles_create X (- 1) (basename @ ''_schur_approx'') m;
          m \<leftarrow> upd_sles schurp (\<lambda>s. s\<lparr>sles_precond := CS_PARAM_PRECOND_AMG\<rparr>) m;
          m \<leftarrow> upd_sles schurp (\<lambda>s. s\<lparr>sles_solver := CS_PARAM_SOLVER_FCG\<rparr>) m;
          m \<leftarrow> upd_sles schurp (\<lambda>s. s\<lparr>sles_amg_type := CS_PARAM_AMG_INHOUSE_K\<rparr>) m;
          m \<leftarrow> upd_sles schurp
                 (\<lambda>s. s\<lparr>sles_cvg_param := (sles_cvg_param s)\<lparr>rtol := 1 / 10 ^ 4\<rparr>\<rparr>) m;
          upd_saddle a (\<lambda>p. p\<lparr>schur_sles_param := Some schurp\<rparr>) m })"

text \<open>\<open>_init_xtra_slesp\<close>.\<close>

definition init_xtra_slesp :: "cs_ext \<Rightarrow> addr option \<Rightarrow> mem \<Rightarrow> mem option" where
  "init_xtra_slesp X saddlep m =
     (case saddlep of
        None \<Rightarrow> Some m
      | Some a \<Rightarrow> do {
          p \<leftarrow> heap_get (saddle_heap m) a;
          let b11_slesp = block11_sles_param p;
          m \<leftarrow> (if xtra_sles_param p \<noteq> None
                then do {
                  m \<leftarrow> cs_param_sles_free (xtra_sles_param p) m;
                  upd_saddle a (\<lambda>p. p\<lparr>xtra_sles_param := None\<rparr>) m }
                else Some m);
          basename \<leftarrow> cs_param_saddle_get_name saddlep m;
          let (xtra_slesp, m) = cs_param_sles_create X (- 1) (basename @ ''_b11_xtra'') m;
          m \<leftarrow> cs_param_sles_copy_from b11_slesp (Some xtra_slesp) m;
          m \<leftarrow> upd_sles xtra_slesp
                 (\<lambda>s. s\<lparr>sles_cvg_param := (sles_cvg_param s)\<lparr>rtol := 1 / 10 ^ 3\<rparr>\<rparr>) m;
          m \<leftarrow> upd_sles xtra_slesp
                 (\<lambda>s. s\<lparr>sles_cvg_param := (sles_cvg_param s)\<lparr>n_max_iter := 50\<rparr>\<rparr>) m;
          upd_saddle a (\<lambda>p. p\<lparr>xtra_sles_param := Some xtra_slesp\<rparr>) m })"

text \<open>\<open>_init_xtra_transfo_slesp\<close>; \<open>fmin\<close> and \<open>fmax\<close> are \<open>min\<close> and \<open>max\<close>.\<close>

definition init_xtra_transfo_slesp :: "cs_ext \<Rightarrow> addr option \<Rightarrow> mem \<Rightarrow> mem option" where
  "init_xtra_transfo_slesp X saddlep m =
     (case saddlep of
        None \<Rightarrow> Some m
      | Some a \<Rightarrow> do {
          p \<leftarrow> heap_get (saddle_heap m) a;
          let b11_slesp = block11_sles_param p;
          m \<leftarrow> (if xtra_sles_param p \<noteq> None
                then do {
                  m \<leftarrow> cs_param_sles_free (xtra_sles_param p) m;
                  upd_saddle a (\<lambda>p. p\<lparr>xtra_sles_param := None\<rparr>) m }
                else Some m);
          b11 \<leftarrow> get_sles b11_slesp m;
          let basename = sles_name b11;
          let (xtra_slesp, m) = cs_param_sles_create X (- 1) (basename @ '':Transfo'') m;
          m \<leftarrow> cs_param_sles_copy_from b11_slesp (Some xtra_slesp) m;
          let min_tol_threshold = 1 / 10 ^ 14;
          b11 \<leftarrow> get_sles b11_slesp m;
          let tol = min (0.1 * rtol (sles_cvg_param b11)) (0.1 * rtol (cvg_param p));
          let tol = min tol (10 * atol (cvg_param p));
          let tol = max tol min_tol_threshold;
          m \<leftarrow> upd_sles xtra_slesp
                 (\<lambda>s. s\<lparr>sles_cvg_param := (sles_cvg_param s)\<lparr>rtol := tol\<rparr>\<rparr>) m;
          m \<leftarrow> upd_sles xtra_slesp
                 (\<lambda>s. s\<lparr>sles_cvg_param := (sles_cvg_param s)
                        \<lparr>atol := min (atol (cvg_param p)) (atol (sles_cvg_param b11))\<rparr>\<rparr>) m;
          upd_saddle a (\<lambda>p. p\<lparr>xtra_sles_param := Some xtra_slesp\<rparr>) m })"

subsection \<open>Context scalars\<close>

definition cs_param_saddle_set_restart_range :: "addr option \<Rightarrow> int \<Rightarrow> mem \<Rightarrow> mem option" where
  "cs_param_saddle_set_restart_range saddlep restart_range m =
     (case saddlep of
        None \<Rightarrow> Some m
      | Some a \<Rightarrow> do {
          p \<leftarrow> heap_get (saddle_heap m) a;
          if solver p = CS_PARAM_SADDLE_SOLVER_FGMRES \<or> solver p = CS_PARAM_SADDLE_SOLVER_GCR
          then do {
            ctxp \<leftarrow> context_ptr p;
            upd_ctx ctxp
              (\<lambda>c. case c of Context_block_krylov _ \<Rightarrow> Some (Context_block_krylov restart_range)
                            | _ \<Rightarrow> None) m }
          else Some (cs_log_warning ''Restart range not taken into account.'' m) })"

definition cs_param_saddle_set_notay_scaling :: "addr option \<Rightarrow> real \<Rightarrow> mem \<Rightarrow> mem option" where
  "cs_param_saddle_set_notay_scaling saddlep scaling_coef m =
     (case saddlep of
        None \<Rightarrow> Some m
      | Some a \<Rightarrow> do {
          p \<leftarrow> heap_get (saddle_heap m) a;
          if solver p \<noteq> CS_PARAM_SADDLE_SOLVER_NOTAY_TRANSFORM then Some m
          else do {
            ctx \<leftarrow> context_ptr p;
            upd_ctx ctx
              (\<lambda>c. case c of Context_notay _ \<Rightarrow> Some (Context_notay scaling_coef)
                            | _ \<Rightarrow> None) m } })"

definition cs_param_saddle_set_augmentation_coef :: "addr option \<Rightarrow> real \<Rightarrow> mem \<Rightarrow> mem option"
  where
  "cs_param_saddle_set_augmentation_coef saddlep coef m =
     (case saddlep of
        None \<Rightarrow> Some m
      | Some a \<Rightarrow> do {
          p \<leftarrow> heap_get (saddle_heap m) a;
          if solver p = CS_PARAM_SADDLE_SOLVER_ALU
          then do {
            ctx \<leftarrow> context_ptr p;
            upd_ctx ctx
              (\<lambda>c. case c of Context_alu _ d \<Rightarrow> Some (Context_alu coef d) | _ \<Rightarrow> None) m }
          else if solver p = CS_PARAM_SADDLE_SOLVER_GKB
          then do {
            ctx \<leftarrow> context_ptr p;
            upd_ctx ctx
              (\<lambda>c. case c of Context_gkb _ t d \<Rightarrow> Some (Context_gkb coef t d) | _ \<Rightarrow> None) m }
          else Some (cs_log_warning ''Augmentation coef. not taken into account.'' m) })"

definition cs_param_saddle_get_augmentation_coef :: "addr option \<Rightarrow> mem \<Rightarrow> real option" where
  "cs_param_saddle_get_augmentation_coef saddlep m =
     (case saddlep of
        None \<Rightarrow> Some 0
      | Some a \<Rightarrow> do {
          p \<leftarrow> heap_get (saddle_heap m) a;
          if solver p = CS_PARAM_SADDLE_SOLVER_ALU
          then do {
            c \<leftarrow> get_ctx (context_ptr p) m;
            case c of Context_alu g _ \<Rightarrow> Some g | _ \<Rightarrow> None }
          else if solver p = CS_PARAM_SADDLE_SOLVER_GKB
          then do {
            c \<leftarrow> get_ctx (context_ptr p) m;
            case c of Context_gkb g _ _ \<Rightarrow> Some g | _ \<Rightarrow> None }
          else Some 0 })"

subsection \<open>The setters with a key\<close>

definition cs_param_saddle_set_precond ::
  "string option \<Rightarrow> addr option \<Rightarrow> mem \<Rightarrow> (int \<times> mem) option" where
  "cs_param_saddle_set_precond keyval saddlep m =
     (let ierr = 1 in
      case keyval of
        None \<Rightarrow> Some (ierr, m)
      | Some k \<Rightarrow>
      (case saddlep of
         None \<Rightarrow> Some (ierr, m)
       | Some a \<Rightarrow>
           if k = ''none'' then do {
             m \<leftarrow> upd_saddle a (\<lambda>p. p\<lparr>precond := CS_PARAM_SADDLE_PRECOND_NONE\<rparr>) m;
             Some (0, m) }
           else if k = ''diag'' then do {
             m \<leftarrow> upd_saddle a (\<lambda>p. p\<lparr>precond := CS_PARAM_SADDLE_PRECOND_DIAG\<rparr>) m;
             Some (0, m) }
           else if k = ''lower'' then do {
             m \<leftarrow> upd_saddle a (\<lambda>p. p\<lparr>precond := CS_PARAM_SADDLE_PRECOND_LOWER\<rparr>) m;
             Some (0, m) }
           else if k = ''sgs'' then do {
             m \<leftarrow> upd_saddle a (\<lambda>p. p\<lparr>precond := CS_PARAM_SADDLE_PRECOND_SGS\<rparr>) m;
             Some (0, m) }
           else if k = ''upper'' then do {
             m \<leftarrow> upd_saddle a (\<lambda>p. p\<lparr>precond := CS_PARAM_SADDLE_PRECOND_UPPER\<rparr>) m;
             Some (0, m) }
           else if k = ''uzawa'' then do {
             m \<leftarrow> upd_saddle a (\<lambda>p. p\<lparr>precond := CS_PARAM_SADDLE_PRECOND_UZAWA\<rparr>) m;
             p \<leftarrow> heap_get (saddle_heap m) a;
             m \<leftarrow> (if schur_approx p = CS_PARAM_SADDLE_SCHUR_NONE
                   then upd_saddle a
                          (\<lambda>p. p\<lparr>schur_approx := CS_PARAM_SADDLE_SCHUR_MASS_SCALED\<rparr>) m
                   else Some m);
             Some (0, m) }
           else Some (ierr, m)))"

definition cs_param_saddle_set_schur_approx ::
  "cs_ext \<Rightarrow> string option \<Rightarrow> addr option \<Rightarrow> mem \<Rightarrow> (int \<times> mem) option" where
  "cs_param_saddle_set_schur_approx X keyval saddlep m =
     (let ierr = 1 in
      case keyval of
        None \<Rightarrow> Some (ierr, m)
      | Some k \<Rightarrow>
      (case saddlep of
         None \<Rightarrow> Some (ierr, m)
       | Some a \<Rightarrow>
           if k = ''none'' then do {
             m \<leftarrow> upd_saddle a (\<lambda>p. p\<lparr>schur_approx := CS_PARAM_SADDLE_SCHUR_NONE\<rparr>) m;
             Some (0, m) }
           else if k = ''diag_inv'' then do {
             m \<leftarrow> upd_saddle a
                    (\<lambda>p. p\<lparr>schur_approx := CS_PARAM_SADDLE_SCHUR_DIAG_INVERSE\<rparr>) m;
             m \<leftarrow> init_schur_slesp X saddlep m;
             Some (0, m) }
           else if k = ''identity'' then do {
             m \<leftarrow> upd_saddle a (\<lambda>p. p\<lparr>schur_approx := CS_PARAM_SADDLE_SCHUR_IDENTITY\<rparr>) m;
             Some (0, m) }
           else if k = ''lumped_inv'' then do {
             m \<leftarrow> upd_saddle a
                    (\<lambda>p. p\<lparr>schur_approx := CS_PARAM_SADDLE_SCHUR_LUMPED_INVERSE\<rparr>) m;
             m \<leftarrow> init_schur_slesp X saddlep m;
             m \<leftarrow> init_xtra_slesp X saddlep m;
             Some (0, m) }
           else if k = ''mass'' \<or> k = ''mass_scaled'' then do {
             m \<leftarrow> upd_saddle a
                    (\<lambda>p. p\<lparr>schur_approx := CS_PARAM_SADDLE_SCHUR_MASS_SCALED\<rparr>) m;
             Some (0, m) }
           else if k = ''mass_scaled_diag_inv'' then do {
             m \<leftarrow> upd_saddle a
                    (\<lambda>p. p\<lparr>schur_approx := CS_PARAM_SADDLE_SCHUR_MASS_SCALED_DIAG_INVERSE\<rparr>) m;
             m \<leftarrow> init_schur_slesp X saddlep m;
             Some (0, m) }
           else if k = ''mass_scaled_lumped_inv'' then do {
             m \<leftarrow> upd_saddle a
                    (\<lambda>p. p\<lparr>schur_approx := CS_PARAM_SADDLE_SCHUR_MASS_SCALED_LUMPED_INVERSE\<rparr>) m;
             m \<leftarrow> init_schur_slesp X saddlep m;
             m \<leftarrow> init_xtra_slesp X saddlep m;
             Some (0, m) }
           else Some (ierr, m)))"

definition cs_param_saddle_set_solver_class ::
  "cs_ext \<Rightarrow> string option \<Rightarrow> addr option \<Rightarrow> mem \<Rightarrow> (int \<times> mem) option" where
  "cs_param_saddle_set_solver_class X keyval saddlep m =
     (let ierr = 1 in
      case keyval of
        None \<Rightarrow> Some (ierr, m)
      | Some k \<Rightarrow>
      (case saddlep of
         None \<Rightarrow> Some (ierr, m)
       | Some a \<Rightarrow>
           if k = ''cs'' \<or> k = ''saturne'' then do {
             m \<leftarrow> upd_saddle a (\<lambda>p. p\<lparr>solver_class := CS_PARAM_SOLVER_CLASS_CS\<rparr>) m;
             Some (0, m) }
           else if k = ''petsc'' then do {
             m \<leftarrow> upd_saddle a (\<lambda>p. p\<lparr>solver_class := CS_PARAM_SOLVER_CLASS_PETSC\<rparr>) m;
             let ret_class = cs_param_sles_check_class X CS_PARAM_SOLVER_CLASS_PETSC;
             if ret_class \<noteq> CS_PARAM_SOLVER_CLASS_PETSC then Some (2, m) else Some (0, m) }
           else if k = ''mumps'' then do {
             m \<leftarrow> upd_saddle a (\<lambda>p. p\<lparr>solver_class := CS_PARAM_SOLVER_CLASS_MUMPS\<rparr>) m;
             let ret_class = cs_param_sles_check_class X CS_PARAM_SOLVER_CLASS_MUMPS;
             if ret_class = CS_PARAM_N_SOLVER_CLASSES then Some (3, m) else Some (0, m) }
           else Some (ierr, m)))"

text \<open>
  \<open>if (saddlep->context != NULL) BFT_FREE(saddlep->context)\<close>: the macro frees the block
  and writes NULL into the pointer it was given.
\<close>

definition free_context :: "addr \<Rightarrow> mem \<Rightarrow> mem option" where
  "free_context a m = do {
     p \<leftarrow> heap_get (saddle_heap m) a;
     case context_ptr p of
       None \<Rightarrow> Some m
     | Some c \<Rightarrow> do {
         m \<leftarrow> free_ctx c m;
         upd_saddle a (\<lambda>p. p\<lparr>context_ptr := None\<rparr>) m } }"

definition cs_param_saddle_set_solver ::
  "cs_ext \<Rightarrow> string option \<Rightarrow> addr option \<Rightarrow> mem \<Rightarrow> (int \<times> mem) option" where
  "cs_param_saddle_set_solver X keyval saddlep m =
     (let ierr = 1 in
      case keyval of
        None \<Rightarrow> Some (ierr, m)
      | Some k \<Rightarrow>
      (case saddlep of
         None \<Rightarrow> Some (ierr, m)
       | Some a \<Rightarrow>
           if k = ''none'' then do {
             m \<leftarrow> upd_saddle a (\<lambda>p. p\<lparr>solver := CS_PARAM_SADDLE_SOLVER_NONE\<rparr>) m;
             Some (0, m) }
           else if k = ''alu'' then do {
             m \<leftarrow> upd_saddle a (\<lambda>p. p\<lparr>solver := CS_PARAM_SADDLE_SOLVER_ALU\<rparr>) m;
             m \<leftarrow> upd_saddle a (\<lambda>p. p\<lparr>solver_class := CS_PARAM_SOLVER_CLASS_CS\<rparr>) m;
             m \<leftarrow> upd_saddle a (\<lambda>p. p\<lparr>precond := CS_PARAM_SADDLE_PRECOND_NONE\<rparr>) m;
             m \<leftarrow> upd_saddle a (\<lambda>p. p\<lparr>schur_approx := CS_PARAM_SADDLE_SCHUR_NONE\<rparr>) m;
             m \<leftarrow> init_xtra_transfo_slesp X saddlep m;
             let (ctxp, m) = malloc_ctx (Context_alu 100 False) m;
             m \<leftarrow> free_context a m;
             m \<leftarrow> upd_saddle a (\<lambda>p. p\<lparr>context_ptr := Some ctxp\<rparr>) m;
             Some (0, m) }
           else if k = ''fgmres'' then do {
             m \<leftarrow> upd_saddle a (\<lambda>p. p\<lparr>solver := CS_PARAM_SADDLE_SOLVER_FGMRES\<rparr>) m;
             m \<leftarrow> upd_saddle a (\<lambda>p. p\<lparr>solver_class := CS_PARAM_SOLVER_CLASS_PETSC\<rparr>) m;
             let ret_class = cs_param_sles_check_class X CS_PARAM_SOLVER_CLASS_PETSC;
             if ret_class \<noteq> CS_PARAM_SOLVER_CLASS_PETSC then Some (2, m)
             else do {
               let (ctxp, m) = malloc_ctx (Context_block_krylov 30) m;
               m \<leftarrow> free_context a m;
               m \<leftarrow> upd_saddle a (\<lambda>p. p\<lparr>context_ptr := Some ctxp\<rparr>) m;
               Some (0, m) } }
           else if k = ''gcr'' then do {
             m \<leftarrow> upd_saddle a (\<lambda>p. p\<lparr>solver := CS_PARAM_SADDLE_SOLVER_GCR\<rparr>) m;
             m \<leftarrow> upd_saddle a (\<lambda>p. p\<lparr>solver_class := CS_PARAM_SOLVER_CLASS_CS\<rparr>) m;
             let (ctxp, m) = malloc_ctx (Context_block_krylov 30) m;
             m \<leftarrow> free_context a m;
             m \<leftarrow> upd_saddle a (\<lambda>p. p\<lparr>context_ptr := Some ctxp\<rparr>) m;
             Some (0, m) }
           else if k = ''gkb'' then do {
             m \<leftarrow> upd_saddle a (\<lambda>p. p\<lparr>solver := CS_PARAM_SADDLE_SOLVER_GKB\<rparr>) m;
             m \<leftarrow> upd_saddle a (\<lambda>p. p\<lparr>solver_class := CS_PARAM_SOLVER_CLASS_CS\<rparr>) m;
             m \<leftarrow> upd_saddle a (\<lambda>p. p\<lparr>precond := CS_PARAM_SADDLE_PRECOND_NONE\<rparr>) m;
             m \<leftarrow> upd_saddle a (\<lambda>p. p\<lparr>schur_approx := CS_PARAM_SADDLE_SCHUR_NONE\<rparr>) m;
             m \<leftarrow> init_xtra_transfo_slesp X saddlep m;
             let (ctxp, m) = malloc_ctx (Context_gkb 0 5 False) m;
             m \<leftarrow> free_context a m;
             m \<leftarrow> upd_saddle a (\<lambda>p. p\<lparr>context_ptr := Some ctxp\<rparr>) m;
             Some (0, m) }
           else if k = ''minres'' then do {
             m \<leftarrow> upd_saddle a (\<lambda>p. p\<lparr>solver := CS_PARAM_SADDLE_SOLVER_MINRES\<rparr>) m;
             m \<leftarrow> upd_saddle a (\<lambda>p. p\<lparr>solver_class := CS_PARAM_SOLVER_CLASS_CS\<rparr>) m;
             Some (0, m) }
           else if k = ''mumps'' then do {
             m \<leftarrow> upd_saddle a (\<lambda>p. p\<lparr>solver := CS_PARAM_SADDLE_SOLVER_MUMPS\<rparr>) m;
             m \<leftarrow> upd_saddle a (\<lambda>p. p\<lparr>solver_class := CS_PARAM_SOLVER_CLASS_MUMPS\<rparr>) m;
             let ret_class = cs_param_sles_check_class X CS_PARAM_SOLVER_CLASS_MUMPS;
             if ret_class = CS_PARAM_N_SOLVER_CLASSES then Some (3, m) else Some (0, m) }
           else if k = ''notay'' then do {
             m \<leftarrow> upd_saddle a
                    (\<lambda>p. p\<lparr>solver := CS_PARAM_SADDLE_SOLVER_NOTAY_TRANSFORM\<rparr>) m;
             m \<leftarrow> upd_saddle a (\<lambda>p. p\<lparr>solver_class := CS_PARAM_SOLVER_CLASS_CS\<rparr>) m;
             let (ctxp, m) = malloc_ctx (Context_notay 1) m;
             m \<leftarrow> free_context a m;
             m \<leftarrow> upd_saddle a (\<lambda>p. p\<lparr>context_ptr := Some ctxp\<rparr>) m;
             Some (0, m) }
           else if k = ''uzawa_cg'' then do {
             m \<leftarrow> upd_saddle a (\<lambda>p. p\<lparr>solver := CS_PARAM_SADDLE_SOLVER_UZAWA_CG\<rparr>) m;
             m \<leftarrow> upd_saddle a (\<lambda>p. p\<lparr>solver_class := CS_PARAM_SOLVER_CLASS_CS\<rparr>) m;
             let m = cs_sles_set_epzero (1 / 10 ^ 15) m;
             Some (0, m) }
           else Some (ierr, m)))"

subsection \<open>Copy\<close>

definition cs_param_saddle_try_init_schur_sles_param ::
  "cs_ext \<Rightarrow> addr option \<Rightarrow> mem \<Rightarrow> mem option" where
  "cs_param_saddle_try_init_schur_sles_param X saddlep m =
     (case saddlep of
        None \<Rightarrow> Some m
      | Some a \<Rightarrow> do {
          p \<leftarrow> heap_get (saddle_heap m) a;
          if schur_sles_param p \<noteq> None then Some m
          else init_schur_slesp X saddlep m })"

definition cs_param_saddle_try_init_xtra_sles_param ::
  "cs_ext \<Rightarrow> addr option \<Rightarrow> mem \<Rightarrow> mem option" where
  "cs_param_saddle_try_init_xtra_sles_param X saddlep m =
     (case saddlep of
        None \<Rightarrow> Some m
      | Some a \<Rightarrow> do {
          p \<leftarrow> heap_get (saddle_heap m) a;
          if xtra_sles_param p \<noteq> None then Some m
          else init_xtra_slesp X saddlep m })"

definition cs_param_saddle_copy :: "cs_ext \<Rightarrow> addr option \<Rightarrow> addr option \<Rightarrow> mem \<Rightarrow> mem option"
  where
  "cs_param_saddle_copy X ref dest m =
     (case ref of
        None \<Rightarrow> Some m
      | Some r \<Rightarrow>
      (case dest of
         None \<Rightarrow> None
       | Some d \<Rightarrow> do {
           rp \<leftarrow> heap_get (saddle_heap m) r;
           m \<leftarrow> upd_saddle d (\<lambda>p. p\<lparr>solver_class := solver_class rp\<rparr>) m;
           m \<leftarrow> upd_saddle d (\<lambda>p. p\<lparr>solver := solver rp\<rparr>) m;
           m \<leftarrow> upd_saddle d (\<lambda>p. p\<lparr>precond := precond rp\<rparr>) m;
           m \<leftarrow> upd_saddle d (\<lambda>p. p\<lparr>schur_approx := schur_approx rp\<rparr>) m;
           m \<leftarrow> upd_saddle d
                  (\<lambda>p. p\<lparr>cvg_param := (cvg_param p)\<lparr>rtol := rtol (cvg_param rp)\<rparr>\<rparr>) m;
           m \<leftarrow> upd_saddle d
                  (\<lambda>p. p\<lparr>cvg_param := (cvg_param p)\<lparr>atol := atol (cvg_param rp)\<rparr>\<rparr>) m;
           m \<leftarrow> upd_saddle d
                  (\<lambda>p. p\<lparr>cvg_param := (cvg_param p)\<lparr>dtol := dtol (cvg_param rp)\<rparr>\<rparr>) m;
           m \<leftarrow> upd_saddle d
                  (\<lambda>p. p\<lparr>cvg_param := (cvg_param p)
                         \<lparr>n_max_iter := n_max_iter (cvg_param rp)\<rparr>\<rparr>) m;
           m \<leftarrow> upd_saddle d (\<lambda>p. p\<lparr>block11_sles_param := block11_sles_param rp\<rparr>) m;
           rp \<leftarrow> heap_get (saddle_heap m) r;
           m \<leftarrow> (if schur_sles_param rp \<noteq> None
                 then do {
                   dp \<leftarrow> heap_get (saddle_heap m) d;
                   m \<leftarrow> (if name dp = None
                         then cs_param_saddle_set_name ''automatic'' dest m
                         else Some m);
                   m \<leftarrow> cs_param_saddle_try_init_schur_sles_param X dest m;
                   rp \<leftarrow> heap_get (saddle_heap m) r;
                   dp \<leftarrow> heap_get (saddle_heap m) d;
                   cs_param_sles_copy_from (schur_sles_param rp) (schur_sles_param dp) m }
                 else Some m);
           rp \<leftarrow> heap_get (saddle_heap m) r;
           m \<leftarrow> (if xtra_sles_param rp \<noteq> None
                 then do {
                   dp \<leftarrow> heap_get (saddle_heap m) d;
                   m \<leftarrow> (if name dp = None
                         then cs_param_saddle_set_name ''automatic'' dest m
                         else Some m);
                   m \<leftarrow> cs_param_saddle_try_init_xtra_sles_param X dest m;
                   rp \<leftarrow> heap_get (saddle_heap m) r;
                   dp \<leftarrow> heap_get (saddle_heap m) d;
                   cs_param_sles_copy_from (xtra_sles_param rp) (xtra_sles_param dp) m }
                 else Some m);
           Some m }))"

section \<open>cs\_cdofb\_monolithic\_sles.c\<close>

subsection \<open>Arrays and loops\<close>

text \<open>
  An array is a list. A read or a write outside the array is undefined behaviour in C and
  \<open>None\<close> here. \<open>cs_lnum_t\<close> is a signed integer: a cell number read from the mesh is an
  \<open>int\<close>, the indices the loops count are natural numbers, and index arithmetic does not
  overflow.
\<close>

definition arr_get :: "'a list \<Rightarrow> nat \<Rightarrow> 'a option" where
  "arr_get xs i = (if i < length xs then Some (xs ! i) else None)"

definition arr_set :: "'a list \<Rightarrow> nat \<Rightarrow> 'a \<Rightarrow> 'a list option" where
  "arr_set xs i v = (if i < length xs then Some (xs[i := v]) else None)"

definition arr_upd :: "'a list \<Rightarrow> int \<Rightarrow> ('a \<Rightarrow> 'a) \<Rightarrow> 'a list option" where
  "arr_upd xs i g =
     (if 0 \<le> i \<and> i < int (length xs) then Some (xs[nat i := g (xs ! nat i)]) else None)"

text \<open>
  \<open>cs_real_t\<close> is \<open>double\<close>. The values the functions read are finite and are real numbers
  here (rounding apart). A division by zero does not stop the program: it gives an
  infinity or a NaN, which the function stores and multiplies like any other double. The
  values the functions compute by a division are therefore finite reals or \<open>Inf_or_NaN\<close>,
  which stands for the two infinities and NaN; a product with an infinity or a NaN is an
  infinity or a NaN again.
\<close>

datatype cs_real_t = Finite real | Inf_or_NaN

definition double_div :: "real \<Rightarrow> real \<Rightarrow> cs_real_t" where
  "double_div x y = (if y = 0 then Inf_or_NaN else Finite (x / y))"

definition double_mult :: "real \<Rightarrow> cs_real_t \<Rightarrow> cs_real_t" where
  "double_mult x y = (case y of Finite r \<Rightarrow> Finite (x * r) | Inf_or_NaN \<Rightarrow> Inf_or_NaN)"

text \<open>\<open>for (i = 0; i < n; i++) out[i] = f(i)\<close>: the array of the values, in the order of the loop.\<close>

fun for_cells :: "nat \<Rightarrow> (nat \<Rightarrow> 'a option) \<Rightarrow> 'a list option" where
  "for_cells 0 f = Some []"
| "for_cells (Suc n) f =
     (case for_cells n f of
        None \<Rightarrow> None
      | Some xs \<Rightarrow> (case f n of None \<Rightarrow> None | Some x \<Rightarrow> Some (xs @ [x])))"

text \<open>A loop over the given indices that updates a state and stops at the first failure.\<close>

fun for_loop :: "nat list \<Rightarrow> (nat \<Rightarrow> 's \<Rightarrow> 's option) \<Rightarrow> 's \<Rightarrow> 's option" where
  "for_loop [] body st = Some st"
| "for_loop (i # is) body st =
     (case body i st of None \<Rightarrow> None | Some st' \<Rightarrow> for_loop is body st')"

subsection \<open>The structures the functions read\<close>

text \<open>
  Modelled from the spec: the mesh view (cs\_mesh.h and cs\_cdo\_quantities.h are missing).
  The spec lists the integers \<open>n_cells\<close>, \<open>n_cells_with_ghosts\<close>, the numbers of interior and
  boundary faces, the face to cell adjacencies, the cell volumes, and for every face its
  unit normal and its area: \<open>cs_nvec3_t\<close> holds the area \<open>meas\<close> and the unit vector \<open>unitv\<close>,
  an array of three reals read at the indices 0, 1, 2. \<open>i_face_nvec\<close> stands for
  \<open>cs_quant_set_face_nvec\<close> and \<open>b_face_nvec\<close> for \<open>cs_nvec3\<close> on the normal of a boundary face.
\<close>

record cs_nvec3_t =
  meas :: real
  unitv :: "nat \<Rightarrow> real"

record cs_mesh_t =
  n_cells_with_ghosts :: int
  n_i_faces :: int
  n_b_faces :: int
  i_face_cells :: "(int \<times> int) list"
  b_face_cells :: "int list"

record cs_cdo_quantities_t =
  n_cells :: int
  cell_vol :: "real list"
  i_face_nvec :: "nat \<Rightarrow> cs_nvec3_t"
  b_face_nvec :: "nat \<Rightarrow> cs_nvec3_t"

text \<open>
  Modelled from the spec: a property (cs\_property.h is missing) has a reference value and
  can be evaluated at every cell at a given time; \<open>cs_property_eval_at_cells\<close> fills an
  array of \<open>n_cells\<close> values.
\<close>

record cs_property_t =
  ref_value :: real
  value_at :: "real \<Rightarrow> nat \<Rightarrow> real"

definition cs_property_eval_at_cells :: "real \<Rightarrow> cs_property_t \<Rightarrow> nat \<Rightarrow> real list" where
  "cs_property_eval_at_cells t pty n = map (value_at pty t) [0..<n]"

record cs_time_step_t =
  t_cur :: real
  dt :: "real list"

record cs_turb_model_t =
  iturb :: int

record cs_turbulence_param_t =
  model :: cs_turb_model_t

record cs_navsto_param_t =
  turbulence :: cs_turbulence_param_t
  lam_viscosity :: cs_property_t
  tot_viscosity :: cs_property_t
  mass_density :: cs_property_t
  model_flag :: nat

text \<open>
  The values of the enumeration constants that the code names, whose headers are missing:
  parameters of the model.
\<close>

record cs_navsto_consts =
  CS_TURB_NONE :: int
  CS_NAVSTO_MODEL_STEADY :: nat

text \<open>
  A saddle-point solver (cs\_saddle\_solver.h is missing): of \<open>cs_saddle_solver_t\<close> the code
  at hand reads the pointer to the parameters.
\<close>

record cs_saddle_solver_t =
  param :: "addr option"

subsection \<open>Scaled mass matrix and Schur matrix\<close>

text \<open>\<open>_get_m22_scaled_diag_mass_matrix\<close>: the array and the value written to \<open>schur_scaling\<close>.\<close>

definition get_m22_scaled_diag_mass_matrix ::
  "cs_navsto_consts \<Rightarrow> cs_cdo_quantities_t \<Rightarrow> cs_time_step_t \<Rightarrow> cs_navsto_param_t \<Rightarrow>
   (cs_real_t list \<times> cs_real_t) option" where
  "get_m22_scaled_diag_mass_matrix K cdoq ts nsp = do {
     let n = nat (n_cells cdoq);
     m22_mass_diag \<leftarrow>
       (if iturb (model (turbulence nsp)) = CS_TURB_NONE K
        then
          (let visc_val = ref_value (lam_viscosity nsp)
           in for_cells n (\<lambda>i. do {
                v \<leftarrow> arr_get (cell_vol cdoq) i;
                Some (double_div visc_val v) }))
        else
          (let vals = cs_property_eval_at_cells (t_cur ts) (tot_viscosity nsp) n
           in for_cells n (\<lambda>i. do {
                mu \<leftarrow> arr_get vals i;
                v \<leftarrow> arr_get (cell_vol cdoq) i;
                Some (double_div mu v) })));
     let rho0 = ref_value (mass_density nsp);
     dt0 \<leftarrow> arr_get (dt ts) 0;
     let alpha = double_div 1 dt0;
     let alpha = (if and (model_flag nsp) (CS_NAVSTO_MODEL_STEADY K) \<noteq> 0
                  then Finite (0.01 * ref_value (lam_viscosity nsp))
                  else alpha);
     Some (m22_mass_diag, double_mult rho0 alpha) }"

text \<open>
  The inner loop \<open>for (k = 0; k < 3; k++) contrib += m11_inv_ff[k] * unitv[k] * unitv[k]\<close>,
  with \<open>m11_inv_ff = m11_inv_approx + shift\<close>.
\<close>

definition sum_normal :: "real list \<Rightarrow> nat \<Rightarrow> cs_nvec3_t \<Rightarrow> real option" where
  "sum_normal m11_inv_approx shift nvf =
     for_loop [0, 1, 2]
       (\<lambda>k contrib. do {
          d \<leftarrow> arr_get m11_inv_approx (shift + k);
          Some (contrib + d * unitv nvf k * unitv nvf k) })
       0"

text \<open>The body of the loop on interior faces; the state is \<open>(diag_smat, xtra_smat)\<close>.\<close>

definition i_face_body ::
  "cs_mesh_t \<Rightarrow> cs_cdo_quantities_t \<Rightarrow> real list \<Rightarrow> nat \<Rightarrow> real list \<times> real list \<Rightarrow>
   (real list \<times> real list) option" where
  "i_face_body mesh quant m11_inv_approx f_id st = do {
     let (diag_smat, xtra_smat) = st;
     let nvf = i_face_nvec quant f_id;
     contrib \<leftarrow> sum_normal m11_inv_approx (3 * f_id) nvf;
     let contrib = contrib * (- meas nvf * meas nvf);
     xtra_smat \<leftarrow> arr_set xtra_smat (2 * f_id + 1) contrib;
     xtra_smat \<leftarrow> arr_set xtra_smat (2 * f_id) contrib;
     (cell_i, cell_j) \<leftarrow> arr_get (i_face_cells mesh) f_id;
     diag_smat \<leftarrow> arr_upd diag_smat cell_i (\<lambda>x. x - contrib);
     diag_smat \<leftarrow> arr_upd diag_smat cell_j (\<lambda>x. x - contrib);
     Some (diag_smat, xtra_smat) }"

text \<open>The body of the loop on boundary faces; \<open>_shift = m11_inv_approx + 3 * n_i_faces\<close>.\<close>

definition b_face_body ::
  "cs_mesh_t \<Rightarrow> cs_cdo_quantities_t \<Rightarrow> real list \<Rightarrow> nat \<Rightarrow> real list \<times> real list \<Rightarrow>
   (real list \<times> real list) option" where
  "b_face_body mesh quant m11_inv_approx f_id st = do {
     let (diag_smat, xtra_smat) = st;
     let nvf = b_face_nvec quant f_id;
     contrib \<leftarrow> sum_normal m11_inv_approx (3 * nat (n_i_faces mesh) + 3 * f_id) nvf;
     let contrib = contrib * (meas nvf * meas nvf);
     c \<leftarrow> arr_get (b_face_cells mesh) f_id;
     diag_smat \<leftarrow> arr_upd diag_smat c (\<lambda>x. x + contrib);
     Some (diag_smat, xtra_smat) }"

text \<open>
  \<open>_schur_matrix_from_m11_inv_approx\<close>. The matrix itself belongs to the backend
  (cs\_matrix.c is missing): the model returns its format, "HYPRE_ParCSR" or MSR, with the
  two arrays of coefficients the function fills and hands to the matrix.
\<close>

datatype cs_matrix_format = HYPRE_ParCSR | MSR

definition schur_matrix_from_m11_inv_approx ::
  "cs_mesh_t \<Rightarrow> cs_cdo_quantities_t \<Rightarrow> cs_param_solver_class_t \<Rightarrow> real list \<Rightarrow>
   (cs_matrix_format \<times> real list \<times> real list) option" where
  "schur_matrix_from_m11_inv_approx mesh quant mat_class m11_inv_approx = do {
     let n_cells_ext = n_cells_with_ghosts mesh;
     let diag_smat = replicate (nat n_cells_ext) 0;
     let xtra_smat = replicate (nat (2 * n_i_faces mesh)) 0;
     (diag_smat, xtra_smat) \<leftarrow>
       for_loop [0..<nat (n_i_faces mesh)] (i_face_body mesh quant m11_inv_approx)
         (diag_smat, xtra_smat);
     (diag_smat, xtra_smat) \<leftarrow>
       for_loop [0..<nat (n_b_faces mesh)] (b_face_body mesh quant m11_inv_approx)
         (diag_smat, xtra_smat);
     let smat = (if mat_class = CS_PARAM_SOLVER_CLASS_HYPRE then HYPRE_ParCSR else MSR);
     Some (smat, diag_smat, xtra_smat) }"

subsection \<open>Full-system and Notay drivers\<close>

text \<open>
  \<open>bft_error\<close> stops the run with a message: the drivers end with \<open>Inl\<close> of the message or
  with \<open>Inr\<close> of the number of iterations they return. The solve itself
  (\<open>cs_saddle_solver_sles_full_system\<close>, \<open>cs_saddle_solver_notay\<close>, cs\_saddle\_solver.c) is
  missing and is a parameter: from the solver and the two arrays it gives the number of
  iterations. The checks under \<open>DEBUG\<close> are not part of a release build.
\<close>

definition cs_cdofb_monolithic_sles_full_system ::
  "(cs_saddle_solver_t \<Rightarrow> real list \<Rightarrow> real list \<Rightarrow> int) \<Rightarrow> cs_navsto_param_t \<Rightarrow>
   cs_saddle_solver_t option \<Rightarrow> real list \<Rightarrow> real list \<Rightarrow> mem \<Rightarrow> (string + int) option" where
  "cs_cdofb_monolithic_sles_full_system full_system_solve nsp slv u_f p_c m =
     (case slv of
        None \<Rightarrow> Some (Inr 0)
      | Some s \<Rightarrow>
          (case get_saddle (param s) m of
             None \<Rightarrow> None
           | Some saddlep \<Rightarrow>
               if solver saddlep \<noteq> CS_PARAM_SADDLE_SOLVER_MUMPS \<or>
                  solver saddlep \<noteq> CS_PARAM_SADDLE_SOLVER_FGMRES
               then Some (Inl ''Full system solver is expected.'')
               else Some (Inr (full_system_solve s u_f p_c))))"

definition cs_cdofb_monolithic_sles_notay ::
  "(cs_saddle_solver_t \<Rightarrow> real list \<Rightarrow> real list \<Rightarrow> int) \<Rightarrow> cs_navsto_param_t \<Rightarrow>
   cs_saddle_solver_t option \<Rightarrow> real list \<Rightarrow> real list \<Rightarrow> mem \<Rightarrow> (string + int) option" where
  "cs_cdofb_monolithic_sles_notay notay_solve nsp slv u_f p_c m =
     (case slv of
        None \<Rightarrow> Some (Inr 0)
      | Some s \<Rightarrow>
          (case get_saddle (param s) m of
             None \<Rightarrow> None
           | Some saddlep \<Rightarrow>
               if solver saddlep \<noteq> CS_PARAM_SADDLE_SOLVER_NOTAY_TRANSFORM
               then Some (Inl ''Notay's transformation is expected.'')
               else Some (Inr (notay_solve s u_f p_c))))"

section \<open>Definitions used in the statements and their proofs\<close>

text \<open>
  What the three static functions leave in the heap of solver parameters: the settings
  of the extra solver of ALU and GKB, of the Schur solver and of the extra solver of
  the lumped inverse.
\<close>

definition transfo_sles :: "cs_ext \<Rightarrow> cs_param_saddle_t \<Rightarrow> cs_param_sles_t \<Rightarrow> cs_param_sles_t" where
  "transfo_sles X p b11 =
     b11\<lparr>sles_name := sles_name (cs_param_sles_defaults X (- 1) (sles_name b11 @ '':Transfo'')),
         sles_cvg_param := (sles_cvg_param b11)
           \<lparr>rtol := max (min (min (0.1 * rtol (sles_cvg_param b11)) (0.1 * rtol (cvg_param p)))
                            (10 * atol (cvg_param p))) (1 / 10 ^ 14),
            atol := min (atol (cvg_param p)) (atol (sles_cvg_param b11))\<rparr>\<rparr>"

definition schur_sles :: "cs_param_sles_t \<Rightarrow> cs_param_sles_t" where
  "schur_sles d =
     d\<lparr>sles_precond := CS_PARAM_PRECOND_AMG,
       sles_solver := CS_PARAM_SOLVER_FCG,
       sles_amg_type := CS_PARAM_AMG_INHOUSE_K,
       sles_cvg_param := (sles_cvg_param d)\<lparr>rtol := 1 / 10 ^ 4\<rparr>\<rparr>"

definition xtra_sles :: "string \<Rightarrow> cs_param_sles_t \<Rightarrow> cs_param_sles_t" where
  "xtra_sles nm b11 =
     b11\<lparr>sles_name := nm,
         sles_cvg_param := (sles_cvg_param b11)\<lparr>rtol := 1 / 10 ^ 3, n_max_iter := 50\<rparr>\<rparr>"

text \<open>A heap after the block a pointer names was freed; a pointer that is NULL or names a block.\<close>

definition release :: "addr option \<Rightarrow> 'a heap \<Rightarrow> 'a heap" where
  "release q h = (case q of None \<Rightarrow> h | Some a \<Rightarrow> h[a := None])"

definition valid_or_null :: "addr option \<Rightarrow> 'a heap \<Rightarrow> bool" where
  "valid_or_null q h = (case q of None \<Rightarrow> True | Some a \<Rightarrow> heap_get h a \<noteq> None)"

text \<open>The string \<open>cs_param_saddle_get_name\<close> returns for a record, given the heap of solver parameters.\<close>

definition basename_of :: "cs_param_saddle_t \<Rightarrow> cs_param_sles_t heap \<Rightarrow> string option" where
  "basename_of p h =
     (case name p of
        Some n \<Rightarrow> Some n
      | None \<Rightarrow>
          (case block11_sles_param p of
             None \<Rightarrow> Some ''Undefined''
           | Some b \<Rightarrow> map_option sles_name (heap_get h b)))"

subsection \<open>A small configuration\<close>

text \<open>
  A build with every library, one (1,1)-block solver at address 0 and one newly created
  saddle-point record at address 0 that refers to it.
\<close>

definition ex_ext :: cs_ext where
  "ex_ext =
     \<lparr>cs_param_sles_check_class = (\<lambda>c. c),
      cs_param_sles_defaults = (\<lambda>fid nm.
        \<lparr>sles_name = nm, sles_field_id = fid,
         sles_solver_class = CS_PARAM_SOLVER_CLASS_CS,
         sles_precond = CS_PARAM_PRECOND_OTHER 0,
         sles_solver = CS_PARAM_SOLVER_OTHER 0,
         sles_amg_type = CS_PARAM_AMG_OTHER 0,
         sles_cvg_param = \<lparr>atol = 1 / 10 ^ 15, rtol = 1 / 10 ^ 6, dtol = 10 ^ 3,
                           n_max_iter = 10000\<rparr>\<rparr>)\<rparr>"

definition ex_b11 :: cs_param_sles_t where
  "ex_b11 =
     \<lparr>sles_name = ''velocity'', sles_field_id = 3,
      sles_solver_class = CS_PARAM_SOLVER_CLASS_CS,
      sles_precond = CS_PARAM_PRECOND_AMG,
      sles_solver = CS_PARAM_SOLVER_FCG,
      sles_amg_type = CS_PARAM_AMG_INHOUSE_K,
      sles_cvg_param = \<lparr>atol = 1 / 10 ^ 15, rtol = 1 / 10 ^ 8, dtol = 10 ^ 3,
                        n_max_iter = 2500\<rparr>\<rparr>"

definition ex_saddle :: cs_param_saddle_t where
  "ex_saddle =
     \<lparr>verbosity = 0, name = None,
      solver_class = CS_PARAM_SOLVER_CLASS_CS,
      solver = CS_PARAM_SADDLE_SOLVER_NONE,
      precond = CS_PARAM_SADDLE_PRECOND_NONE,
      schur_approx = CS_PARAM_SADDLE_SCHUR_NONE,
      cvg_param = \<lparr>atol = 1 / 10 ^ 12, rtol = 1 / 10 ^ 6, dtol = 10 ^ 3, n_max_iter = 100\<rparr>,
      block11_sles_param = Some 0,
      schur_sles_param = None,
      xtra_sles_param = None,
      context_ptr = None\<rparr>"

definition ex_mem :: mem where
  "ex_mem =
     \<lparr>saddle_heap = [Some ex_saddle], sles_heap = [Some ex_b11], ctx_heap = [],
      epzero = 1 / 10 ^ 12, warnings = []\<rparr>"

text \<open>A build without PETSc and MUMPS.\<close>

definition ex_ext_inhouse :: cs_ext where
  "ex_ext_inhouse = ex_ext\<lparr>cs_param_sles_check_class := (\<lambda>c. CS_PARAM_N_SOLVER_CLASSES)\<rparr>"

text \<open>
  A steady laminar flow of viscosity 2 and density 3 on two cells of volume 4, which share
  one interior face of area 2 and normal x, and have one boundary face each, of area 1 and
  normal y.
\<close>

definition ex_consts :: cs_navsto_consts where
  "ex_consts = \<lparr>CS_TURB_NONE = 0, CS_NAVSTO_MODEL_STEADY = 1\<rparr>"

definition ex_nsp :: cs_navsto_param_t where
  "ex_nsp =
     \<lparr>turbulence = \<lparr>model = \<lparr>iturb = 0\<rparr>\<rparr>,
      lam_viscosity = \<lparr>ref_value = 2, value_at = (\<lambda>t i. 2)\<rparr>,
      tot_viscosity = \<lparr>ref_value = 2, value_at = (\<lambda>t i. 2)\<rparr>,
      mass_density = \<lparr>ref_value = 3, value_at = (\<lambda>t i. 3)\<rparr>,
      model_flag = 1\<rparr>"

definition ex_ts :: cs_time_step_t where
  "ex_ts = \<lparr>t_cur = 0, dt = [1 / 2, 1 / 2, 1 / 2]\<rparr>"

definition ex_quant :: cs_cdo_quantities_t where
  "ex_quant =
     \<lparr>n_cells = 2, cell_vol = [4, 4],
      i_face_nvec = (\<lambda>f. \<lparr>meas = 2, unitv = (\<lambda>k. if k = 0 then 1 else 0)\<rparr>),
      b_face_nvec = (\<lambda>f. \<lparr>meas = 1, unitv = (\<lambda>k. if k = 1 then 1 else 0)\<rparr>)\<rparr>"

definition ex_mesh :: cs_mesh_t where
  "ex_mesh =
     \<lparr>n_cells_with_ghosts = 2, n_i_faces = 1, n_b_faces = 2,
      i_face_cells = [(0, 1)], b_face_cells = [0, 1]\<rparr>"

text \<open>
  The contributions of the faces as the spec writes them: \<open>- A\<^sup>2 \<Sum>\<^sub>k D[3f + k] n\<^sub>k\<^sup>2\<close> for the
  interior face f, and \<open>A\<^sup>2 \<Sum>\<^sub>k D[3 n_i_faces + 3f + k] n\<^sub>k\<^sup>2\<close> for the boundary face f.
\<close>

definition i_contrib :: "cs_cdo_quantities_t \<Rightarrow> real list \<Rightarrow> nat \<Rightarrow> real" where
  "i_contrib quant D f =
     - (meas (i_face_nvec quant f))\<^sup>2 *
       (\<Sum>k<3. D ! (3 * f + k) * (unitv (i_face_nvec quant f) k)\<^sup>2)"

definition b_contrib :: "cs_mesh_t \<Rightarrow> cs_cdo_quantities_t \<Rightarrow> real list \<Rightarrow> nat \<Rightarrow> real" where
  "b_contrib mesh quant D f =
     (meas (b_face_nvec quant f))\<^sup>2 *
       (\<Sum>k<3. D ! (3 * nat (n_i_faces mesh) + 3 * f + k) * (unitv (b_face_nvec quant f) k)\<^sup>2)"

text \<open>
  The fields \<open>cs_param_saddle_copy\<close> assigns directly, two solver parameter records with the
  same settings (all their fields but the name), and a list of pointers into a heap that
  are NULL or live and never name the same block twice (pointers to blocks with one owner
  each).
\<close>

definition settings ::
  "cs_param_saddle_t \<Rightarrow>
   cs_param_solver_class_t \<times> cs_param_saddle_solver_t \<times> cs_param_saddle_precond_t \<times>
   cs_param_saddle_schur_approx_t \<times> cs_param_convergence_t \<times> addr option" where
  "settings p =
     (solver_class p, solver p, precond p, schur_approx p, cvg_param p, block11_sles_param p)"

definition same_settings :: "cs_param_sles_t \<Rightarrow> cs_param_sles_t \<Rightarrow> bool" where
  "same_settings v w \<longleftrightarrow>
     sles_field_id v = sles_field_id w \<and> sles_solver_class v = sles_solver_class w \<and>
     sles_precond v = sles_precond w \<and> sles_solver v = sles_solver w \<and>
     sles_amg_type v = sles_amg_type w \<and> sles_cvg_param v = sles_cvg_param w"

definition owned_apart :: "addr option list \<Rightarrow> 'a heap \<Rightarrow> bool" where
  "owned_apart qs h \<longleftrightarrow>
     distinct (List.map_filter id qs) \<and> list_all (\<lambda>q. valid_or_null q h) qs"

text \<open>
  What \<open>cs_param_saddle_copy\<close> does with one nested solver pointer: when the pointer of the
  reference is NULL the pointer of the destination stays; otherwise the destination keeps
  its block, or gets a new one if it had none, and the block holds the settings of the
  block of the reference.
\<close>

definition clone ::
  "addr option \<Rightarrow> addr option \<Rightarrow> addr option \<Rightarrow> mem \<Rightarrow> mem \<Rightarrow> bool" where
  "clone rq dq dq' m m' =
     (case rq of
        None \<Rightarrow> dq' = dq
      | Some s \<Rightarrow>
          (\<exists>s' v v'. dq' = Some s' \<and>
             (dq = Some s' \<or> dq = None \<and> length (sles_heap m) \<le> s') \<and>
             heap_get (sles_heap m) s = Some v \<and> heap_get (sles_heap m') s' = Some v' \<and>
             same_settings v' v))"

text \<open>
  Three records, the first one with verbosity 2, that refer to the same (1,1)-block solver.
\<close>

definition ex_mem3 :: mem where
  "ex_mem3 =
     ex_mem\<lparr>saddle_heap := [Some (ex_saddle\<lparr>verbosity := 2\<rparr>), Some ex_saddle, Some ex_saddle]\<rparr>"

section \<open>Heaps and the execution of the primitives\<close>

lemma heap_get_append [simp]:
  "heap_get (h @ [x]) a = (if a = length h then x else heap_get h a)"
  by (auto simp: heap_get_def nth_append)

lemma heap_get_update [simp]:
  "heap_get (h[a := x]) b = (if b = a \<and> a < length h then x else heap_get h b)"
  by (auto simp: heap_get_def)

lemma heap_get_length [simp]: "heap_get h (length h) = None"
  by (simp add: heap_get_def)

lemma heap_get_Some_length: "heap_get h a = Some v \<Longrightarrow> a < length h"
  by (auto simp: heap_get_def split: if_splits)

lemma heap_get_Some_neq [simp]: "heap_get h a = Some v \<Longrightarrow> (a = length h) = False"
  by (auto simp: heap_get_def split: if_splits)

lemma length_release [simp]: "length (release q h) = length h"
  by (simp add: release_def split: option.splits)

lemma upd_saddle_exec:
  "heap_get (saddle_heap m) a = Some p \<Longrightarrow>
   upd_saddle a f m = Some (m\<lparr>saddle_heap := (saddle_heap m)[a := Some (f p)]\<rparr>)"
  by (simp add: upd_saddle_def)

lemma upd_saddle_None: "heap_get (saddle_heap m) a = None \<Longrightarrow> upd_saddle a f m = None"
  by (simp add: upd_saddle_def)

lemma upd_sles_exec:
  "heap_get (sles_heap m) a = Some s \<Longrightarrow>
   upd_sles a f m = Some (m\<lparr>sles_heap := (sles_heap m)[a := Some (f s)]\<rparr>)"
  by (simp add: upd_sles_def)

lemma upd_sles_None: "heap_get (sles_heap m) a = None \<Longrightarrow> upd_sles a f m = None"
  by (simp add: upd_sles_def)

lemma cs_param_sles_free_exec:
  "heap_get (sles_heap m) a = Some s \<Longrightarrow>
   cs_param_sles_free (Some a) m = Some (m\<lparr>sles_heap := (sles_heap m)[a := None]\<rparr>)"
  by (simp add: cs_param_sles_free_def heap_free_def)

lemma cs_param_sles_free_None:
  "heap_get (sles_heap m) a = None \<Longrightarrow> cs_param_sles_free (Some a) m = None"
  by (simp add: cs_param_sles_free_def heap_free_def)

lemma free_context_eq:
  "heap_get (saddle_heap m) a = Some p \<Longrightarrow>
   free_context a m =
     (case context_ptr p of
        None \<Rightarrow> Some m
      | Some c \<Rightarrow>
          (case heap_get (ctx_heap m) c of
             None \<Rightarrow> None
           | Some v \<Rightarrow>
               Some (m\<lparr>ctx_heap := (ctx_heap m)[c := None],
                        saddle_heap := (saddle_heap m)[a := Some (p\<lparr>context_ptr := None\<rparr>)]\<rparr>)))"
  by (simp add: free_context_def free_ctx_def heap_free_def upd_saddle_def split: option.splits)

lemmas exec_simps = upd_saddle_exec upd_saddle_None upd_sles_exec upd_sles_None
  cs_param_sles_free_exec cs_param_sles_free_None Let_def list_update_append malloc_ctx_def
  cs_param_sles_create_def get_sles_def cs_sles_set_epzero_def

lemma get_name_exec:
  "heap_get (saddle_heap m) a = Some p \<Longrightarrow>
   cs_param_saddle_get_name (Some a) m = basename_of p (sles_heap m)"
  by (simp add: cs_param_saddle_get_name_def get_sles_def basename_of_def split: option.splits)

lemma basename_of_update [simp]:
  "basename_of (p\<lparr>xtra_sles_param := q\<rparr>) h = basename_of p h"
  "basename_of (p\<lparr>schur_sles_param := q\<rparr>) h = basename_of p h"
  by (simp_all add: basename_of_def split: option.splits)

section \<open>What the static functions compute\<close>

lemma init_xtra_transfo_slesp_exec:
  assumes p: "heap_get (saddle_heap m) a = Some p"
  shows "init_xtra_transfo_slesp X (Some a) m =
     (case block11_sles_param p of
        None \<Rightarrow> None
      | Some b \<Rightarrow>
          (case heap_get (sles_heap m) b of
             None \<Rightarrow> None
           | Some b11 \<Rightarrow>
               if valid_or_null (xtra_sles_param p) (sles_heap m) \<and> xtra_sles_param p \<noteq> Some b
               then Some (m\<lparr>saddle_heap :=
                      (saddle_heap m)[a := Some (p\<lparr>xtra_sles_param := Some (length (sles_heap m))\<rparr>)],
                    sles_heap := release (xtra_sles_param p) (sles_heap m) @
                                   [Some (transfo_sles X p b11)]\<rparr>)
               else None))"
proof -
  have len: "a < length (saddle_heap m)" using p by (rule heap_get_Some_length)
  show ?thesis
  proof (cases "xtra_sles_param p")
    case None
    with p len show ?thesis
      by (auto simp: init_xtra_transfo_slesp_def exec_simps cs_param_sles_copy_from_def
            release_def valid_or_null_def transfo_sles_def split: option.splits)
  next
    case (Some xo)
    show ?thesis
    proof (cases "heap_get (sles_heap m) xo")
      case None
      with p len Some show ?thesis
        by (auto simp: init_xtra_transfo_slesp_def exec_simps valid_or_null_def
              split: option.splits)
    next
      case (Some xs)
      have xlen: "xo < length (sles_heap m)" using Some by (rule heap_get_Some_length)
      with p len \<open>xtra_sles_param p = Some xo\<close> Some show ?thesis
        by (auto simp: init_xtra_transfo_slesp_def exec_simps cs_param_sles_copy_from_def
              release_def valid_or_null_def transfo_sles_def split: option.splits)
    qed
  qed
qed

lemma init_schur_slesp_exec:
  assumes p: "heap_get (saddle_heap m) a = Some p"
  shows "init_schur_slesp X (Some a) m =
     (if valid_or_null (schur_sles_param p) (sles_heap m)
      then (case basename_of p (release (schur_sles_param p) (sles_heap m)) of
              None \<Rightarrow> None
            | Some bn \<Rightarrow>
                Some (m\<lparr>saddle_heap :=
                       (saddle_heap m)[a := Some (p\<lparr>schur_sles_param := Some (length (sles_heap m))\<rparr>)],
                     sles_heap := release (schur_sles_param p) (sles_heap m) @
                       [Some (schur_sles (cs_param_sles_defaults X (- 1) (bn @ ''_schur_approx'')))]\<rparr>))
      else None)"
proof -
  have len: "a < length (saddle_heap m)" using p by (rule heap_get_Some_length)
  show ?thesis
  proof (cases "schur_sles_param p")
    case None
    with p len show ?thesis
      by (auto simp: init_schur_slesp_def exec_simps get_name_exec
            release_def valid_or_null_def schur_sles_def split: option.splits)
  next
    case (Some so)
    show ?thesis
    proof (cases "heap_get (sles_heap m) so")
      case None
      with p len Some show ?thesis
        by (auto simp: init_schur_slesp_def exec_simps valid_or_null_def split: option.splits)
    next
      case (Some ss)
      have slen: "so < length (sles_heap m)" using Some by (rule heap_get_Some_length)
      with p len \<open>schur_sles_param p = Some so\<close> Some show ?thesis
        by (auto simp: init_schur_slesp_def exec_simps get_name_exec
              release_def valid_or_null_def schur_sles_def split: option.splits)
    qed
  qed
qed

lemma init_xtra_slesp_exec:
  assumes p: "heap_get (saddle_heap m) a = Some p"
  shows "init_xtra_slesp X (Some a) m =
     (if valid_or_null (xtra_sles_param p) (sles_heap m)
      then (case basename_of p (release (xtra_sles_param p) (sles_heap m)) of
              None \<Rightarrow> None
            | Some bn \<Rightarrow>
                (case block11_sles_param p of
                   None \<Rightarrow> None
                 | Some b \<Rightarrow>
                     (case heap_get (release (xtra_sles_param p) (sles_heap m) @
                             [Some (cs_param_sles_defaults X (- 1) (bn @ ''_b11_xtra''))]) b of
                        None \<Rightarrow> None
                      | Some b11 \<Rightarrow>
                          Some (m\<lparr>saddle_heap :=
                                 (saddle_heap m)
                                   [a := Some (p\<lparr>xtra_sles_param := Some (length (sles_heap m))\<rparr>)],
                               sles_heap := release (xtra_sles_param p) (sles_heap m) @
                                 [Some (xtra_sles
                                    (sles_name (cs_param_sles_defaults X (- 1) (bn @ ''_b11_xtra'')))
                                    b11)]\<rparr>))))
      else None)"
proof -
  have len: "a < length (saddle_heap m)" using p by (rule heap_get_Some_length)
  show ?thesis
  proof (cases "xtra_sles_param p")
    case None
    with p len show ?thesis
      by (auto simp: init_xtra_slesp_def exec_simps get_name_exec cs_param_sles_copy_from_def
            release_def valid_or_null_def xtra_sles_def split: option.splits)
  next
    case (Some xo)
    show ?thesis
    proof (cases "heap_get (sles_heap m) xo")
      case None
      with p len Some show ?thesis
        by (auto simp: init_xtra_slesp_def exec_simps valid_or_null_def split: option.splits)
    next
      case (Some xs)
      have xlen: "xo < length (sles_heap m)" using Some by (rule heap_get_Some_length)
      with p len \<open>xtra_sles_param p = Some xo\<close> Some show ?thesis
        by (auto simp: init_xtra_slesp_def exec_simps get_name_exec cs_param_sles_copy_from_def
              release_def valid_or_null_def xtra_sles_def split: option.splits)
    qed
  qed
qed

lemmas run_simps = upd_saddle_exec upd_saddle_None upd_sles_exec upd_sles_None
  free_context_eq Let_def list_update_append malloc_ctx_def cs_sles_set_epzero_def
  init_xtra_transfo_slesp_exec init_schur_slesp_exec init_xtra_slesp_exec

lemmas ex_defs = ex_ext_def ex_b11_def ex_saddle_def ex_mem_def

lemma heap_get_append2 [simp]:
  "heap_get (h @ [x, y]) a =
     (if a = length h then x else if a = Suc (length h) then y else heap_get h a)"
  by (auto simp: heap_get_def nth_append nth_Cons split: nat.splits)

lemma set_precond_error:
  assumes "cs_param_saddle_set_precond keyval saddlep m = Some (r, m')" and "r \<noteq> 0"
  shows "r = 1 \<and> m' = m"
  using assms
  by (auto simp: cs_param_saddle_set_precond_def bind_eq_Some_conv
        split: option.splits if_splits)

lemma set_schur_approx_error:
  assumes "cs_param_saddle_set_schur_approx X keyval saddlep m = Some (r, m')" and "r \<noteq> 0"
  shows "r = 1 \<and> m' = m"
  using assms
  by (auto simp: cs_param_saddle_set_schur_approx_def bind_eq_Some_conv
        split: option.splits if_splits)

lemma set_solver_class_error:
  assumes "cs_param_saddle_set_solver_class X keyval saddlep m = Some (r, m')" and "r \<noteq> 0"
  shows "r = 1 \<and> m' = m \<or>
         (\<exists>a p. saddlep = Some a \<and> heap_get (saddle_heap m) a = Some p \<and>
            (r = 2 \<and> m' = m\<lparr>saddle_heap := (saddle_heap m)
                [a := Some (p\<lparr>solver_class := CS_PARAM_SOLVER_CLASS_PETSC\<rparr>)]\<rparr> \<or>
             r = 3 \<and> m' = m\<lparr>saddle_heap := (saddle_heap m)
                [a := Some (p\<lparr>solver_class := CS_PARAM_SOLVER_CLASS_MUMPS\<rparr>)]\<rparr>))"
  using assms
  by (auto simp: cs_param_saddle_set_solver_class_def bind_eq_Some_conv upd_saddle_def Let_def
        split: option.splits if_splits)

lemma set_solver_error:
  assumes run: "cs_param_saddle_set_solver X keyval saddlep m = Some (r, m')" and r: "r \<noteq> 0"
  shows "r = 1 \<and> m' = m \<or>
         (\<exists>a p. saddlep = Some a \<and> heap_get (saddle_heap m) a = Some p \<and>
            (r = 2 \<and> m' = m\<lparr>saddle_heap := (saddle_heap m)
                [a := Some (p\<lparr>solver := CS_PARAM_SADDLE_SOLVER_FGMRES,
                              solver_class := CS_PARAM_SOLVER_CLASS_PETSC\<rparr>)]\<rparr> \<or>
             r = 3 \<and> m' = m\<lparr>saddle_heap := (saddle_heap m)
                [a := Some (p\<lparr>solver := CS_PARAM_SADDLE_SOLVER_MUMPS,
                              solver_class := CS_PARAM_SOLVER_CLASS_MUMPS\<rparr>)]\<rparr>))"
proof (cases keyval)
  case None
  with run show ?thesis by (simp add: cs_param_saddle_set_solver_def)
next
  case (Some k)
  note k = Some
  show ?thesis
  proof (cases saddlep)
    case None
    with run k show ?thesis by (simp add: cs_param_saddle_set_solver_def)
  next
    case (Some a)
    note a = Some
    consider "k = ''fgmres''" | "k = ''mumps''" | "k \<noteq> ''fgmres''" "k \<noteq> ''mumps''" by blast
    then show ?thesis
    proof cases
      case 1
      with run r k a show ?thesis
        by (auto simp: cs_param_saddle_set_solver_def bind_eq_Some_conv upd_saddle_def Let_def
            heap_get_Some_length split: option.splits if_splits prod.splits)
    next
      case 2
      with run r k a show ?thesis
        by (auto simp: cs_param_saddle_set_solver_def bind_eq_Some_conv upd_saddle_def Let_def
            heap_get_Some_length split: option.splits if_splits)
    next
      case 3
      with run r k a show ?thesis
        by (auto simp: cs_param_saddle_set_solver_def bind_eq_Some_conv Let_def
            split: if_splits prod.splits)
    qed
  qed
qed

lemma set_solver_zero_keys:
  assumes "cs_param_saddle_set_solver X (Some k) (Some a) m = Some (0, m')"
  shows "k = ''none'' \<or> k = ''alu'' \<or> k = ''fgmres'' \<or> k = ''gcr'' \<or> k = ''gkb'' \<or>
         k = ''minres'' \<or> k = ''mumps'' \<or> k = ''notay'' \<or> k = ''uzawa_cg''"
  using assms by (auto simp: cs_param_saddle_set_solver_def split: if_splits)

lemma set_solver_step_ctx:
  assumes run: "cs_param_saddle_set_solver X (Some k) (Some a) m = Some (0, m')"
    and p: "heap_get (saddle_heap m) a = Some p"
    and wf: "valid_or_null (context_ptr p) (ctx_heap m)"
    and k: "k = ''gcr'' \<or> k = ''notay'' \<or> k = ''fgmres''"
  shows "\<exists>p'. heap_get (saddle_heap m') a = Some p' \<and>
           valid_or_null (context_ptr p') (ctx_heap m') \<and>
           solver p' = (if k = ''gcr'' then CS_PARAM_SADDLE_SOLVER_GCR
                        else if k = ''notay'' then CS_PARAM_SADDLE_SOLVER_NOTAY_TRANSFORM
                        else CS_PARAM_SADDLE_SOLVER_FGMRES) \<and>
           get_ctx (context_ptr p') m' =
             Some (if k = ''notay'' then Context_notay 1 else Context_block_krylov 30) \<and>
           (\<forall>c. context_ptr p = Some c \<longrightarrow>
              heap_get (ctx_heap m') c = None \<and> context_ptr p' \<noteq> Some c)"
proof -
  have len: "a < length (saddle_heap m)" using p by (rule heap_get_Some_length)
  show ?thesis
  proof (cases "context_ptr p")
    case None
    with run p len k show ?thesis
      by (auto simp: cs_param_saddle_set_solver_def run_simps valid_or_null_def
            get_ctx_def split: if_split_asm)
  next
    case (Some c)
    with wf obtain v where v: "heap_get (ctx_heap m) c = Some v"
      by (auto simp: valid_or_null_def)
    have clen: "c < length (ctx_heap m)" using v by (rule heap_get_Some_length)
    with run p len k Some v show ?thesis
      by (auto simp: cs_param_saddle_set_solver_def run_simps valid_or_null_def
            get_ctx_def split: if_split_asm)
  qed
qed

lemma set_solver_step_transfo:
  assumes run: "cs_param_saddle_set_solver X (Some k) (Some a) m = Some (0, m')"
    and p: "heap_get (saddle_heap m) a = Some p"
    and wf: "valid_or_null (context_ptr p) (ctx_heap m)"
    and k: "k = ''alu'' \<or> k = ''gkb''"
  shows "\<exists>p'. heap_get (saddle_heap m') a = Some p' \<and>
           valid_or_null (context_ptr p') (ctx_heap m') \<and>
           solver p' = (if k = ''alu'' then CS_PARAM_SADDLE_SOLVER_ALU
                        else CS_PARAM_SADDLE_SOLVER_GKB) \<and>
           get_ctx (context_ptr p') m' =
             Some (if k = ''alu'' then Context_alu 100 False else Context_gkb 0 5 False) \<and>
           (\<forall>c. context_ptr p = Some c \<longrightarrow>
              heap_get (ctx_heap m') c = None \<and> context_ptr p' \<noteq> Some c)"
proof -
  have len: "a < length (saddle_heap m)" using p by (rule heap_get_Some_length)
  show ?thesis
  proof (cases "context_ptr p")
    case None
    with run p len k show ?thesis
      by (auto simp: cs_param_saddle_set_solver_def run_simps valid_or_null_def
            get_ctx_def split: if_split_asm option.split_asm)
  next
    case (Some c)
    with wf obtain v where v: "heap_get (ctx_heap m) c = Some v"
      by (auto simp: valid_or_null_def)
    have clen: "c < length (ctx_heap m)" using v by (rule heap_get_Some_length)
    with run p len k Some v show ?thesis
      by (auto simp: cs_param_saddle_set_solver_def run_simps valid_or_null_def
            get_ctx_def split: if_split_asm option.split_asm)
  qed
qed

lemma set_solver_step_plain:
  assumes run: "cs_param_saddle_set_solver X (Some k) (Some a) m = Some (0, m')"
    and p: "heap_get (saddle_heap m) a = Some p"
    and k: "k = ''none'' \<or> k = ''minres'' \<or> k = ''mumps'' \<or> k = ''uzawa_cg''"
  shows "\<exists>p'. heap_get (saddle_heap m') a = Some p' \<and>
           solver p' = (if k = ''none'' then CS_PARAM_SADDLE_SOLVER_NONE
                        else if k = ''minres'' then CS_PARAM_SADDLE_SOLVER_MINRES
                        else if k = ''mumps'' then CS_PARAM_SADDLE_SOLVER_MUMPS
                        else CS_PARAM_SADDLE_SOLVER_UZAWA_CG) \<and>
           context_ptr p' = context_ptr p \<and> ctx_heap m' = ctx_heap m"
proof -
  have len: "a < length (saddle_heap m)" using p by (rule heap_get_Some_length)
  with run p k show ?thesis
    by (auto simp: cs_param_saddle_set_solver_def run_simps split: if_splits)
qed

section \<open>Arrays and loops\<close>

lemma arr_get_Some: "arr_get xs i = Some v \<Longrightarrow> i < length xs \<and> v = xs ! i"
  by (auto simp: arr_get_def split: if_splits)

lemma arr_upd_Some:
  "arr_upd xs i g = Some ys \<Longrightarrow>
   0 \<le> i \<and> i < int (length xs) \<and> ys = xs[nat i := g (xs ! nat i)]"
  by (auto simp: arr_upd_def split: if_splits)

lemma for_loop_append:
  "for_loop (xs @ ys) body st =
     (case for_loop xs body st of None \<Rightarrow> None | Some st' \<Rightarrow> for_loop ys body st')"
  by (induction xs arbitrary: st) (auto split: option.splits)

lemma for_loop_upt_invariant:
  assumes run: "for_loop [0..<n] body s0 = Some s"
    and init: "P 0 s0"
    and step: "\<And>i t t'. i < n \<Longrightarrow> P i t \<Longrightarrow> body i t = Some t' \<Longrightarrow> P (Suc i) t'"
  shows "P n s"
proof -
  have "for_loop [0..<k] body s0 = Some t \<Longrightarrow> k \<le> n \<Longrightarrow> P k t" for k t
  proof (induction k arbitrary: t)
    case 0
    then show ?case using init by simp
  next
    case (Suc k)
    from Suc.prems(1) obtain u where u: "for_loop [0..<k] body s0 = Some u"
      and t: "body k u = Some t"
      by (auto simp: for_loop_append split: option.splits)
    from Suc.IH [OF u] Suc.prems(2) have "P k u" by simp
    with step [of k u t] t Suc.prems(2) show ?case by simp
  qed
  from this [OF run] show ?thesis by simp
qed

lemma arr_set_Some: "arr_set xs i v = Some ys \<Longrightarrow> i < length xs \<and> ys = xs[i := v]"
  by (auto simp: arr_set_def split: if_splits)

lemma sum_normal_Some:
  assumes "sum_normal D shift nvf = Some s"
  shows "s = (\<Sum>k<3. D ! (shift + k) * (unitv nvf k)\<^sup>2)"
proof -
  have "s = 0 + D ! (shift + 0) * unitv nvf 0 * unitv nvf 0
              + D ! (shift + 1) * unitv nvf 1 * unitv nvf 1
              + D ! (shift + 2) * unitv nvf 2 * unitv nvf 2"
    using assms
    by (auto simp: sum_normal_def bind_eq_Some_conv arr_get_def split: option.splits if_splits)
  then show ?thesis
    by (simp add: eval_nat_numeral power2_eq_square)
qed

lemma i_face_body_Some:
  assumes "i_face_body mesh quant D f (diag, xtra) = Some (diag', xtra')"
  shows "length diag' = length diag \<and> length xtra' = length xtra \<and>
         2 * f + 1 < length xtra \<and>
         xtra' = xtra[2 * f + 1 := i_contrib quant D f, 2 * f := i_contrib quant D f] \<and>
         f < length (i_face_cells mesh) \<and>
         (\<forall>c < length diag.
            diag' ! c = diag ! c
              - (if fst (i_face_cells mesh ! f) = int c then i_contrib quant D f else 0)
              - (if snd (i_face_cells mesh ! f) = int c then i_contrib quant D f else 0))"
proof -
  define w where "w = - meas (i_face_nvec quant f) * meas (i_face_nvec quant f)"
  from assms obtain s x1 ci cj d1 where
    s: "sum_normal D (3 * f) (i_face_nvec quant f) = Some s"
    and x1: "arr_set xtra (2 * f + 1) (s * w) = Some x1"
    and x2: "arr_set x1 (2 * f) (s * w) = Some xtra'"
    and cell: "arr_get (i_face_cells mesh) f = Some (ci, cj)"
    and d1: "arr_upd diag ci (\<lambda>x. x - s * w) = Some d1"
    and d2: "arr_upd d1 cj (\<lambda>x. x - s * w) = Some diag'"
    unfolding w_def
    by (auto simp: i_face_body_def Let_def bind_eq_Some_conv split: prod.splits)
  have c: "s * w = i_contrib quant D f"
    using sum_normal_Some [OF s] by (simp add: i_contrib_def power2_eq_square w_def)
  note X1 = arr_set_Some [OF x1] and X2 = arr_set_Some [OF x2]
    and D1 = arr_upd_Some [OF d1] and D2 = arr_upd_Some [OF d2] and C = arr_get_Some [OF cell]
  from X1 X2 c have xt: "xtra' = xtra[2 * f + 1 := i_contrib quant D f, 2 * f := i_contrib quant D f]"
    by simp
  from X1 have xl: "2 * f + 1 < length xtra" by simp
  from C have fl: "f < length (i_face_cells mesh)" and ij: "i_face_cells mesh ! f = (ci, cj)"
    by simp_all
  have dl: "length diag' = length diag" using D1 D2 by simp
  have "diag' ! k = diag ! k - (if ci = int k then i_contrib quant D f else 0)
          - (if cj = int k then i_contrib quant D f else 0)" if "k < length diag" for k
  proof -
    have i: "0 \<le> ci" "nat ci < length diag" and j: "0 \<le> cj" "nat cj < length diag"
      using D1 D2 by auto
    have e1: "d1 ! k = diag ! k - (if ci = int k then i_contrib quant D f else 0)"
      using D1 c that i by (auto simp: nth_list_update)
    have e2: "diag' ! k = d1 ! k - (if cj = int k then i_contrib quant D f else 0)"
      using D1 D2 c that j by (auto simp: nth_list_update)
    from e1 e2 show ?thesis by simp
  qed
  with xt xl fl ij dl X1 X2 show ?thesis by simp
qed

lemma b_face_body_Some:
  assumes "b_face_body mesh quant D f (diag, xtra) = Some (diag', xtra')"
  shows "length diag' = length diag \<and> xtra' = xtra \<and>
         (\<forall>c < length diag.
            diag' ! c = diag ! c
              + (if b_face_cells mesh ! f = int c then b_contrib mesh quant D f else 0))"
proof -
  define w where "w = meas (b_face_nvec quant f) * meas (b_face_nvec quant f)"
  from assms obtain s c where
    s: "sum_normal D (3 * nat (n_i_faces mesh) + 3 * f) (b_face_nvec quant f) = Some s"
    and cell: "arr_get (b_face_cells mesh) f = Some c"
    and d: "arr_upd diag c (\<lambda>x. x + s * w) = Some diag'"
    and x: "xtra' = xtra"
    unfolding w_def
    by (auto simp: b_face_body_def Let_def bind_eq_Some_conv split: prod.splits)
  have c: "s * w = b_contrib mesh quant D f"
    using sum_normal_Some [OF s] by (simp add: b_contrib_def power2_eq_square w_def)
  note D1 = arr_upd_Some [OF d] and C = arr_get_Some [OF cell]
  have "diag' ! k = diag ! k + (if b_face_cells mesh ! f = int k then b_contrib mesh quant D f else 0)"
    if "k < length diag" for k
    using D1 C c that by (auto simp: nth_list_update)
  with D1 x show ?thesis by simp
qed

lemma for_cells_map:
  "(\<And>i. i < n \<Longrightarrow> f i = Some (g i)) \<Longrightarrow> for_cells n f = Some (map g [0..<n])"
  by (induction n) simp_all

lemma for_loop_upt_total:
  assumes init: "P 0 s0"
    and step: "\<And>i t. i < n \<Longrightarrow> P i t \<Longrightarrow> \<exists>t'. body i t = Some t' \<and> P (Suc i) t'"
  shows "\<exists>s. for_loop [0..<n] body s0 = Some s \<and> P n s"
proof -
  have "k \<le> n \<Longrightarrow> \<exists>s. for_loop [0..<k] body s0 = Some s \<and> P k s" for k
  proof (induction k)
    case 0
    then show ?case using init by simp
  next
    case (Suc k)
    then obtain u where u: "for_loop [0..<k] body s0 = Some u" and Pu: "P k u" by auto
    from step [of k u] Pu Suc.prems obtain t where "body k u = Some t" "P (Suc k) t" by auto
    with u show ?case by (auto simp: for_loop_append)
  qed
  then show ?thesis by simp
qed

lemma sum_normal_total:
  "shift + 2 < length D \<Longrightarrow> \<exists>s. sum_normal D shift nvf = Some s"
  by (simp add: sum_normal_def arr_get_def)

lemma i_face_body_total:
  assumes "3 * f + 2 < length D" and "2 * f + 1 < length xtra"
    and "f < length (i_face_cells mesh)"
    and "0 \<le> fst (i_face_cells mesh ! f)" and "fst (i_face_cells mesh ! f) < int (length diag)"
    and "0 \<le> snd (i_face_cells mesh ! f)" and "snd (i_face_cells mesh ! f) < int (length diag)"
  shows "\<exists>diag' xtra'. i_face_body mesh quant D f (diag, xtra) = Some (diag', xtra')"
proof -
  from sum_normal_total [OF assms(1)] obtain s where
    "sum_normal D (3 * f) (i_face_nvec quant f) = Some s" by blast
  with assms(2-) show ?thesis
    by (cases "i_face_cells mesh ! f")
       (simp add: i_face_body_def Let_def arr_get_def arr_set_def arr_upd_def)
qed

lemma b_face_body_total:
  assumes "3 * nat (n_i_faces mesh) + 3 * f + 2 < length D"
    and "f < length (b_face_cells mesh)"
    and "0 \<le> b_face_cells mesh ! f" and "b_face_cells mesh ! f < int (length diag)"
  shows "\<exists>diag' xtra'. b_face_body mesh quant D f (diag, xtra) = Some (diag', xtra')"
proof -
  from sum_normal_total [OF assms(1)] obtain s where
    "sum_normal D (3 * nat (n_i_faces mesh) + 3 * f) (b_face_nvec quant f) = Some s" by blast
  with assms(2-) show ?thesis
    by (simp add: b_face_body_def Let_def arr_get_def arr_upd_def)
qed

lemma schur_matrix_from_m11_inv_approx_Some:
  assumes run: "schur_matrix_from_m11_inv_approx mesh quant mat_class D =
                  Some (smat, diag_smat, xtra_smat)"
  shows "length diag_smat = nat (n_cells_with_ghosts mesh) \<and>
         length xtra_smat = 2 * nat (n_i_faces mesh) \<and>
         (\<forall>f < nat (n_i_faces mesh).
            xtra_smat ! (2 * f) = i_contrib quant D f \<and>
            xtra_smat ! (2 * f + 1) = i_contrib quant D f) \<and>
         (\<forall>c < nat (n_cells_with_ghosts mesh).
            diag_smat ! c =
              0 - (\<Sum>f < nat (n_i_faces mesh).
                     if fst (i_face_cells mesh ! f) = int c then i_contrib quant D f else 0)
                - (\<Sum>f < nat (n_i_faces mesh).
                     if snd (i_face_cells mesh ! f) = int c then i_contrib quant D f else 0)
                + (\<Sum>f < nat (n_b_faces mesh).
                     if b_face_cells mesh ! f = int c then b_contrib mesh quant D f else 0))"
proof -
  define N where "N = nat (n_cells_with_ghosts mesh)"
  define ni where "ni = nat (n_i_faces mesh)"
  define nb where "nb = nat (n_b_faces mesh)"
  define S1 where "S1 i c = (\<Sum>f < i. if fst (i_face_cells mesh ! f) = int c
                                     then i_contrib quant D f else 0)" for i c
  define S2 where "S2 i c = (\<Sum>f < i. if snd (i_face_cells mesh ! f) = int c
                                     then i_contrib quant D f else 0)" for i c
  define B where "B i c = (\<Sum>f < i. if b_face_cells mesh ! f = int c
                                    then b_contrib mesh quant D f else 0)" for i c
  have two: "nat (2 * n_i_faces mesh) = 2 * ni"
    by (simp add: ni_def nat_mult_distrib)
  from run obtain d1 x1 where
    L1': "for_loop [0..<nat (n_i_faces mesh)] (i_face_body mesh quant D)
            (replicate (nat (n_cells_with_ghosts mesh)) 0,
             replicate (nat (2 * n_i_faces mesh)) 0) = Some (d1, x1)"
    and L2': "for_loop [0..<nat (n_b_faces mesh)] (b_face_body mesh quant D) (d1, x1)
            = Some (diag_smat, xtra_smat)"
    by (auto simp: schur_matrix_from_m11_inv_approx_def Let_def bind_eq_Some_conv
          split: prod.splits)
  have L1: "for_loop [0..<ni] (i_face_body mesh quant D) (replicate N 0, replicate (2 * ni) 0)
           = Some (d1, x1)"
    using L1' unfolding two N_def [symmetric] ni_def [symmetric] .
  have L2: "for_loop [0..<nb] (b_face_body mesh quant D) (d1, x1) = Some (diag_smat, xtra_smat)"
    using L2' unfolding nb_def [symmetric] .
  define P where "P i st =
     (length (fst st) = N \<and> length (snd st) = 2 * ni \<and>
      (\<forall>f < i. snd st ! (2 * f) = i_contrib quant D f \<and>
                snd st ! (2 * f + 1) = i_contrib quant D f) \<and>
      (\<forall>c < N. fst st ! c = 0 - S1 i c - S2 i c))" for i st
  have P: "P ni (d1, x1)"
  proof (rule for_loop_upt_invariant [OF L1])
    show "P 0 (replicate N 0, replicate (2 * ni) 0)"
      by (simp add: P_def S1_def S2_def)
  next
    fix i t t'
    assume i: "i < ni" and Pi: "P i t" and body: "i_face_body mesh quant D i t = Some t'"
    obtain d x where t: "t = (d, x)" by (cases t)
    obtain d' x' where t': "t' = (d', x')" by (cases t')
    from i_face_body_Some [OF body [unfolded t t']]
    have ld: "length d' = length d" and lx: "length x' = length x"
      and bound: "2 * i + 1 < length x"
      and x': "x' = x[2 * i + 1 := i_contrib quant D i, 2 * i := i_contrib quant D i]"
      and d': "\<forall>c < length d.
            d' ! c = d ! c
              - (if fst (i_face_cells mesh ! i) = int c then i_contrib quant D i else 0)
              - (if snd (i_face_cells mesh ! i) = int c then i_contrib quant D i else 0)"
      by simp_all
    from Pi t have len: "length d = N" "length x = 2 * ni"
      and old: "\<forall>f < i. x ! (2 * f) = i_contrib quant D f \<and> x ! (2 * f + 1) = i_contrib quant D f"
      and dold: "\<forall>c < N. d ! c = 0 - S1 i c - S2 i c"
      by (simp_all add: P_def)
    have xs: "x' ! (2 * f) = i_contrib quant D f \<and> x' ! (2 * f + 1) = i_contrib quant D f"
      if "f < Suc i" for f
    proof (cases "f = i")
      case True
      with x' bound show ?thesis by (simp add: nth_list_update)
    next
      case False
      with that have fi: "f < i" by simp
      then have "2 * f \<noteq> 2 * i" "2 * f \<noteq> 2 * i + 1" "2 * f + 1 \<noteq> 2 * i"
        "2 * f + 1 \<noteq> 2 * i + 1" by presburger+
      with x' old fi show ?thesis by (simp add: nth_list_update)
    qed
    have ds: "d' ! c = 0 - S1 (Suc i) c - S2 (Suc i) c" if "c < N" for c
      using d' dold that len by (simp add: S1_def S2_def)
    from ld lx len xs ds show "P (Suc i) t'"
      by (simp add: P_def t')
  qed
  define Q where "Q i st =
     (length (fst st) = N \<and> snd st = x1 \<and> (\<forall>c < N. fst st ! c = d1 ! c + B i c))" for i st
  have Q: "Q nb (diag_smat, xtra_smat)"
  proof (rule for_loop_upt_invariant [OF L2])
    show "Q 0 (d1, x1)"
      using P by (simp add: Q_def P_def B_def)
  next
    fix i t t'
    assume i: "i < nb" and Qi: "Q i t" and body: "b_face_body mesh quant D i t = Some t'"
    obtain d x where t: "t = (d, x)" by (cases t)
    obtain d' x' where t': "t' = (d', x')" by (cases t')
    from b_face_body_Some [OF body [unfolded t t']]
    have ld: "length d' = length d" and x': "x' = x"
      and d': "\<forall>c < length d.
            d' ! c = d ! c
              + (if b_face_cells mesh ! i = int c then b_contrib mesh quant D i else 0)"
      by simp_all
    from Qi t have len: "length d = N" and x: "x = x1"
      and dold: "\<forall>c < N. d ! c = d1 ! c + B i c"
      by (simp_all add: Q_def)
    have "d' ! c = d1 ! c + B (Suc i) c" if "c < N" for c
      using d' dold that len by (simp add: B_def)
    with ld len x x' show "Q (Suc i) t'"
      by (simp add: Q_def t')
  qed
  from P Q show ?thesis
    by (simp add: P_def Q_def N_def ni_def nb_def S1_def S2_def B_def)
qed

subsection \<open>Copies\<close>

lemma copy_from_exec:
  "heap_get (sles_heap m) s = Some v \<Longrightarrow> heap_get (sles_heap m) d = Some w \<Longrightarrow>
   cs_param_sles_copy_from (Some s) (Some d) m =
     Some (m\<lparr>sles_heap := (sles_heap m)[d := Some (v\<lparr>sles_name := sles_name w\<rparr>)]\<rparr>)"
  by (simp add: cs_param_sles_copy_from_def get_sles_def upd_sles_def)

lemma basename_of_name: "name p = Some n \<Longrightarrow> basename_of p h = Some n"
  by (simp add: basename_of_def)

lemma valid_or_null_Some:
  "valid_or_null (Some a) h \<longleftrightarrow> a < length h \<and> (\<exists>v. heap_get h a = Some v)"
  "valid_or_null None h"
  by (auto simp: valid_or_null_def dest: heap_get_Some_length)

lemma copy_once:
  assumes run: "cs_param_saddle_copy X (Some r) (Some d) m = Some m'"
    and rd: "r \<noteq> d"
    and rp: "heap_get (saddle_heap m) r = Some rp"
    and dp: "heap_get (saddle_heap m) d = Some dp"
    and own: "owned_apart [schur_sles_param rp, xtra_sles_param rp,
                           schur_sles_param dp, xtra_sles_param dp] (sles_heap m)"
  shows "\<exists>dp'. heap_get (saddle_heap m') d = Some dp' \<and>
           settings dp' = settings rp \<and>
           (\<forall>a. a \<noteq> d \<longrightarrow> heap_get (saddle_heap m') a = heap_get (saddle_heap m) a) \<and>
           length (sles_heap m) \<le> length (sles_heap m') \<and>
           (\<forall>q. q < length (sles_heap m) \<longrightarrow> Some q \<noteq> schur_sles_param dp \<longrightarrow>
                Some q \<noteq> xtra_sles_param dp \<longrightarrow>
                heap_get (sles_heap m') q = heap_get (sles_heap m) q) \<and>
           clone (schur_sles_param rp) (schur_sles_param dp) (schur_sles_param dp') m m' \<and>
           clone (xtra_sles_param rp) (xtra_sles_param dp) (xtra_sles_param dp') m m' \<and>
           valid_or_null (schur_sles_param dp') (sles_heap m') \<and>
           valid_or_null (xtra_sles_param dp') (sles_heap m') \<and>
           (schur_sles_param dp' = None \<or> schur_sles_param dp' \<noteq> xtra_sles_param dp') \<and>
           (\<forall>q v. heap_get (sles_heap m) q = Some v \<longrightarrow>
                  (\<exists>v'. heap_get (sles_heap m') q = Some v'))"
proof -
  have lr: "r < length (saddle_heap m)" using rp by (rule heap_get_Some_length)
  have ld: "d < length (saddle_heap m)" using dp by (rule heap_get_Some_length)
  note defs = cs_param_saddle_copy_def cs_param_saddle_set_name_def
    cs_param_saddle_try_init_schur_sles_param_def cs_param_saddle_try_init_xtra_sles_param_def
    run_simps copy_from_exec basename_of_name settings_def clone_def same_settings_def valid_or_null_Some
    release_def owned_apart_def map_filter_simps schur_sles_def xtra_sles_def
  show ?thesis
  proof (cases "schur_sles_param rp")
    case None
    note rs = None
    show ?thesis
    proof (cases "xtra_sles_param rp")
      case None
      with run rd rp dp own lr ld rs show ?thesis
        by (cases "schur_sles_param dp"; cases "xtra_sles_param dp") (auto simp: defs)
    next
      case (Some x1)
      with run rd rp dp own lr ld rs show ?thesis
        by (cases "schur_sles_param dp"; cases "xtra_sles_param dp"; cases "name dp")
           (auto simp: defs split: option.split_asm if_split_asm)
    qed
  next
    case (Some s1)
    note rs = Some
    show ?thesis
    proof (cases "xtra_sles_param rp")
      case None
      with run rd rp dp own lr ld rs show ?thesis
        by (cases "schur_sles_param dp"; cases "xtra_sles_param dp"; cases "name dp")
           (auto simp: defs split: option.split_asm if_split_asm)
    next
      case (Some x1)
      with run rd rp dp own lr ld rs show ?thesis
        by (cases "schur_sles_param dp"; cases "xtra_sles_param dp"; cases "name dp")
           (auto simp: defs split: option.split_asm if_split_asm)
    qed
  qed
qed

lemma copy_returns:
  assumes rd: "r \<noteq> d"
    and rp: "heap_get (saddle_heap m) r = Some rp"
    and dp: "heap_get (saddle_heap m) d = Some dp"
    and own: "owned_apart [schur_sles_param rp, xtra_sles_param rp,
                           schur_sles_param dp, xtra_sles_param dp] (sles_heap m)"
    and b11: "xtra_sles_param rp \<noteq> None \<longrightarrow>
                (\<exists>b v. block11_sles_param rp = Some b \<and> heap_get (sles_heap m) b = Some v)"
  shows "\<exists>m'. cs_param_saddle_copy X (Some r) (Some d) m = Some m'"
proof -
  have lr: "r < length (saddle_heap m)" using rp by (rule heap_get_Some_length)
  have ld: "d < length (saddle_heap m)" using dp by (rule heap_get_Some_length)
  note defs = cs_param_saddle_copy_def cs_param_saddle_set_name_def
    cs_param_saddle_try_init_schur_sles_param_def cs_param_saddle_try_init_xtra_sles_param_def
    run_simps copy_from_exec basename_of_name valid_or_null_Some
    release_def owned_apart_def map_filter_simps
  show ?thesis
  proof (cases "schur_sles_param rp")
    case None
    note rs = None
    show ?thesis
    proof (cases "xtra_sles_param rp")
      case None
      with rd rp dp own lr ld rs show ?thesis
        by (simp add: defs)
    next
      case (Some x1)
      with rd rp dp own lr ld rs b11 show ?thesis
        by (cases "schur_sles_param dp"; cases "xtra_sles_param dp"; cases "name dp")
           (auto simp: defs dest: heap_get_Some_length)
    qed
  next
    case (Some s1)
    note rs = Some
    show ?thesis
    proof (cases "xtra_sles_param rp")
      case None
      with rd rp dp own lr ld rs show ?thesis
        by (cases "schur_sles_param dp"; cases "xtra_sles_param dp"; cases "name dp")
           (auto simp: defs dest: heap_get_Some_length)
    next
      case (Some x1)
      with rd rp dp own lr ld rs b11 show ?thesis
        by (cases "schur_sles_param dp"; cases "xtra_sles_param dp"; cases "name dp")
           (auto simp: defs dest: heap_get_Some_length)
    qed
  qed
qed

lemma ex_mem3_copies:
  "\<exists>m p1 m1 m2 p3'.
     cs_param_saddle_set_solver ex_ext (Some ''alu'') (Some 0) ex_mem3 = Some (0, m) \<and>
     heap_get (saddle_heap m) 0 = Some p1 \<and>
     heap_get (saddle_heap m) 1 = Some ex_saddle \<and>
     heap_get (saddle_heap m) 2 = Some ex_saddle \<and>
     schur_sles_param p1 = None \<and> xtra_sles_param p1 = Some 1 \<and>
     solver p1 = CS_PARAM_SADDLE_SOLVER_ALU \<and> verbosity p1 = 2 \<and>
     cvg_param p1 = cvg_param ex_saddle \<and>
     heap_get (sles_heap m) 1 = Some (transfo_sles ex_ext ex_saddle ex_b11) \<and>
     block11_sles_param p1 = Some 0 \<and> heap_get (sles_heap m) 0 = Some ex_b11 \<and>
     cs_param_saddle_get_augmentation_coef (Some 0) m = Some 100 \<and>
     cs_param_saddle_copy ex_ext (Some 0) (Some 1) m = Some m1 \<and>
     cs_param_saddle_copy ex_ext (Some 1) (Some 2) m1 = Some m2 \<and>
     heap_get (saddle_heap m2) 2 = Some p3' \<and>
     solver p3' = CS_PARAM_SADDLE_SOLVER_ALU \<and>
     verbosity p3' = 0 \<and> context_ptr p3' = None \<and>
     cs_param_saddle_get_augmentation_coef (Some 0) m2 = Some 100 \<and>
     cs_param_saddle_get_augmentation_coef (Some 2) m2 = None"
  by (simp add: cs_param_saddle_set_solver_def cs_param_saddle_copy_def
        cs_param_saddle_set_name_def cs_param_saddle_try_init_schur_sles_param_def
        cs_param_saddle_try_init_xtra_sles_param_def copy_from_exec basename_of_name
        cs_param_saddle_get_augmentation_coef_def get_ctx_def transfo_sles_def
        run_simps valid_or_null_def release_def
        heap_get_def ex_defs ex_mem3_def)

section \<open>The claims\<close>





text \<open>
  C9 (as amended). The setters do not reject a lower or upper block-triangular
  preconditioner for MINRES: for every record, in either order of the calls,
  \<open>cs_param_saddle_set_solver\<close> with "minres" and \<open>cs_param_saddle_set_precond\<close> with
  "lower" or "upper" both return 0, and the record ends with the solver MINRES and the
  preconditioner LOWER or UPPER.
\<close>

theorem minres_lower_upper_accepted:
  assumes p: "heap_get (saddle_heap m) a = Some p"
    and pk: "pk = ''lower'' \<or> pk = ''upper''"
  shows "(\<exists>m1 m2 p'.
            cs_param_saddle_set_solver X (Some ''minres'') (Some a) m = Some (0, m1) \<and>
            cs_param_saddle_set_precond (Some pk) (Some a) m1 = Some (0, m2) \<and>
            heap_get (saddle_heap m2) a = Some p' \<and>
            solver p' = CS_PARAM_SADDLE_SOLVER_MINRES \<and>
            precond p' = (if pk = ''lower'' then CS_PARAM_SADDLE_PRECOND_LOWER
                          else CS_PARAM_SADDLE_PRECOND_UPPER)) \<and>
         (\<exists>m1 m2 p'.
            cs_param_saddle_set_precond (Some pk) (Some a) m = Some (0, m1) \<and>
            cs_param_saddle_set_solver X (Some ''minres'') (Some a) m1 = Some (0, m2) \<and>
            heap_get (saddle_heap m2) a = Some p' \<and>
            solver p' = CS_PARAM_SADDLE_SOLVER_MINRES \<and>
            precond p' = (if pk = ''lower'' then CS_PARAM_SADDLE_PRECOND_LOWER
                          else CS_PARAM_SADDLE_PRECOND_UPPER))"
proof -
  have len: "a < length (saddle_heap m)" using p by (rule heap_get_Some_length)
  from pk p len show ?thesis
    by (auto simp: cs_param_saddle_set_solver_def cs_param_saddle_set_precond_def run_simps)
qed

theorem minres_lower_upper_accepted_witness:
  "heap_get (saddle_heap ex_mem) 0 = Some ex_saddle \<and>
   (\<exists>m1 m2 p'.
      cs_param_saddle_set_precond (Some ''upper'') (Some 0) ex_mem = Some (0, m1) \<and>
      cs_param_saddle_set_solver ex_ext (Some ''minres'') (Some 0) m1 = Some (0, m2) \<and>
      heap_get (saddle_heap m2) 0 = Some p' \<and>
      solver p' = CS_PARAM_SADDLE_SOLVER_MINRES \<and> precond p' = CS_PARAM_SADDLE_PRECOND_UPPER)"
proof -
  have p: "heap_get (saddle_heap ex_mem) 0 = Some ex_saddle"
    by (simp add: ex_defs heap_get_def)
  from minres_lower_upper_accepted [OF p, of "''upper''" ex_ext] p show ?thesis
    by simp
qed

text \<open>
  C9 as stated fails: on the small configuration the two calls return 0 and leave
  the preconditioner LOWER with the solver MINRES.
\<close>

theorem minres_lower_upper_counterexample:
  "\<exists>m1 m2 p'.
     cs_param_saddle_set_solver ex_ext (Some ''minres'') (Some 0) ex_mem = Some (0, m1) \<and>
     cs_param_saddle_set_precond (Some ''lower'') (Some 0) m1 = Some (0, m2) \<and>
     heap_get (saddle_heap m2) 0 = Some p' \<and>
     solver p' = CS_PARAM_SADDLE_SOLVER_MINRES \<and> precond p' = CS_PARAM_SADDLE_PRECOND_LOWER"
  by (simp add: cs_param_saddle_set_solver_def cs_param_saddle_set_precond_def run_simps
        heap_get_def ex_defs)



text \<open>
  C7 (as amended). When a setter with a key returns the error code 1 (unknown key, NULL
  key or NULL record), the memory is as before the call. When
  \<open>cs_param_saddle_set_solver_class\<close> or \<open>cs_param_saddle_set_solver\<close> returns 2 or 3 (the
  library of the class is not there), the class of the record, and for
  \<open>cs_param_saddle_set_solver\<close> its solver, already hold the values asked for; every other
  field of the record and the rest of the memory are as before the call.
  \<open>cs_param_saddle_set_precond\<close> and \<open>cs_param_saddle_set_schur_approx\<close> return no other
  error code than 1.
\<close>

theorem setters_on_error:
  assumes r: "r \<noteq> 0"
  shows "(cs_param_saddle_set_precond keyval saddlep m = Some (r, m') \<longrightarrow> r = 1 \<and> m' = m) \<and>
         (cs_param_saddle_set_schur_approx X keyval saddlep m = Some (r, m') \<longrightarrow>
            r = 1 \<and> m' = m) \<and>
         (cs_param_saddle_set_solver_class X keyval saddlep m = Some (r, m') \<longrightarrow>
            r = 1 \<and> m' = m \<or>
            (\<exists>a p. saddlep = Some a \<and> heap_get (saddle_heap m) a = Some p \<and>
               (r = 2 \<and> m' = m\<lparr>saddle_heap := (saddle_heap m)
                   [a := Some (p\<lparr>solver_class := CS_PARAM_SOLVER_CLASS_PETSC\<rparr>)]\<rparr> \<or>
                r = 3 \<and> m' = m\<lparr>saddle_heap := (saddle_heap m)
                   [a := Some (p\<lparr>solver_class := CS_PARAM_SOLVER_CLASS_MUMPS\<rparr>)]\<rparr>))) \<and>
         (cs_param_saddle_set_solver X keyval saddlep m = Some (r, m') \<longrightarrow>
            r = 1 \<and> m' = m \<or>
            (\<exists>a p. saddlep = Some a \<and> heap_get (saddle_heap m) a = Some p \<and>
               (r = 2 \<and> m' = m\<lparr>saddle_heap := (saddle_heap m)
                   [a := Some (p\<lparr>solver := CS_PARAM_SADDLE_SOLVER_FGMRES,
                                 solver_class := CS_PARAM_SOLVER_CLASS_PETSC\<rparr>)]\<rparr> \<or>
                r = 3 \<and> m' = m\<lparr>saddle_heap := (saddle_heap m)
                   [a := Some (p\<lparr>solver := CS_PARAM_SADDLE_SOLVER_MUMPS,
                                 solver_class := CS_PARAM_SOLVER_CLASS_MUMPS\<rparr>)]\<rparr>)))"
  using r set_precond_error [of keyval saddlep m r m']
    set_schur_approx_error [of X keyval saddlep m r m']
    set_solver_class_error [of X keyval saddlep m r m']
    set_solver_error [of X keyval saddlep m r m']
  by blast

theorem setters_on_error_witness:
  "(2::int) \<noteq> 0 \<and>
   cs_param_saddle_set_precond (Some ''jacobi'') (Some 0) ex_mem = Some (1, ex_mem) \<and>
   (\<exists>m'. cs_param_saddle_set_solver ex_ext_inhouse (Some ''fgmres'') (Some 0) ex_mem = Some (2, m') \<and>
      m' = ex_mem\<lparr>saddle_heap := (saddle_heap ex_mem)
             [0 := Some (ex_saddle\<lparr>solver := CS_PARAM_SADDLE_SOLVER_FGMRES,
                                   solver_class := CS_PARAM_SOLVER_CLASS_PETSC\<rparr>)]\<rparr>)"
proof -
  have p: "heap_get (saddle_heap ex_mem) 0 = Some ex_saddle"
    by (simp add: ex_defs heap_get_def)
  have r1: "cs_param_saddle_set_precond (Some ''jacobi'') (Some 0) ex_mem = Some (1, ex_mem)"
    by (simp add: cs_param_saddle_set_precond_def)
  have "\<exists>m'. cs_param_saddle_set_solver ex_ext_inhouse (Some ''fgmres'') (Some 0) ex_mem
               = Some (2, m')"
    by (simp add: cs_param_saddle_set_solver_def run_simps heap_get_def ex_defs
          ex_ext_inhouse_def)
  then obtain m' where
    r2: "cs_param_saddle_set_solver ex_ext_inhouse (Some ''fgmres'') (Some 0) ex_mem
           = Some (2, m')" ..
  have two: "(2::int) \<noteq> 0" by simp
  from setters_on_error [OF two, of "Some ''fgmres''" "Some 0" ex_mem m' ex_ext_inhouse] r2 p
  have "m' = ex_mem\<lparr>saddle_heap := (saddle_heap ex_mem)
             [0 := Some (ex_saddle\<lparr>solver := CS_PARAM_SADDLE_SOLVER_FGMRES,
                                   solver_class := CS_PARAM_SOLVER_CLASS_PETSC\<rparr>)]\<rparr>"
    by auto
  with r1 r2 show ?thesis by simp
qed

text \<open>
  C7 as stated fails: without PETSc, \<open>cs_param_saddle_set_solver_class\<close> with "petsc" returns 2
  and the class of the record is PETSC, no longer the in-house class it had.
\<close>

theorem setters_on_error_counterexample:
  "cs_param_saddle_set_solver_class ex_ext_inhouse (Some ''petsc'') (Some 0) ex_mem =
     Some (2, ex_mem\<lparr>saddle_heap :=
       [Some (ex_saddle\<lparr>solver_class := CS_PARAM_SOLVER_CLASS_PETSC\<rparr>)]\<rparr>) \<and>
   solver_class ex_saddle = CS_PARAM_SOLVER_CLASS_CS \<and>
   heap_get (saddle_heap ex_mem) 0 = Some ex_saddle"
  by (simp add: cs_param_saddle_set_solver_class_def run_simps heap_get_def ex_defs
        ex_ext_inhouse_def)

text \<open>
  C2 (as amended). Take a record whose context pointer is NULL or names a live block, and
  two calls of \<open>cs_param_saddle_set_solver\<close> on it, with the keys k and then k', that both
  return 0. After the second call the solver of the record is the one k' names. When k' is
  a solver with context scalars, the context of the record is a new block holding the
  variant of k' with its default values (ALU: augmentation 100, no dedicated solver; GKB:
  augmentation 0, truncation 5, no dedicated solver; FGMRES and GCR: block Krylov with
  restart 30; Notay: scaling 1), and the block the record held after the first call is
  freed and no longer the record's context. When k' is a solver without context scalars
  ("none", "minres", "mumps", "uzawa_cg"), the second call leaves the context pointer and
  the heap of contexts as the first call left them.
\<close>

theorem set_solver_twice_context:
  assumes p: "heap_get (saddle_heap m) a = Some p"
    and wf: "valid_or_null (context_ptr p) (ctx_heap m)"
    and r1: "cs_param_saddle_set_solver X (Some k) (Some a) m = Some (0, m1)"
    and r2: "cs_param_saddle_set_solver X (Some k') (Some a) m1 = Some (0, m2)"
  shows "\<exists>p1 p2.
           heap_get (saddle_heap m1) a = Some p1 \<and> heap_get (saddle_heap m2) a = Some p2 \<and>
           (k' = ''alu'' \<longrightarrow>
              solver p2 = CS_PARAM_SADDLE_SOLVER_ALU \<and>
              get_ctx (context_ptr p2) m2 = Some (Context_alu 100 False)) \<and>
           (k' = ''fgmres'' \<longrightarrow>
              solver p2 = CS_PARAM_SADDLE_SOLVER_FGMRES \<and>
              get_ctx (context_ptr p2) m2 = Some (Context_block_krylov 30)) \<and>
           (k' = ''gcr'' \<longrightarrow>
              solver p2 = CS_PARAM_SADDLE_SOLVER_GCR \<and>
              get_ctx (context_ptr p2) m2 = Some (Context_block_krylov 30)) \<and>
           (k' = ''gkb'' \<longrightarrow>
              solver p2 = CS_PARAM_SADDLE_SOLVER_GKB \<and>
              get_ctx (context_ptr p2) m2 = Some (Context_gkb 0 5 False)) \<and>
           (k' = ''notay'' \<longrightarrow>
              solver p2 = CS_PARAM_SADDLE_SOLVER_NOTAY_TRANSFORM \<and>
              get_ctx (context_ptr p2) m2 = Some (Context_notay 1)) \<and>
           (k' = ''alu'' \<or> k' = ''fgmres'' \<or> k' = ''gcr'' \<or> k' = ''gkb'' \<or> k' = ''notay'' \<longrightarrow>
              (\<forall>c. context_ptr p1 = Some c \<longrightarrow>
                 heap_get (ctx_heap m2) c = None \<and> context_ptr p2 \<noteq> Some c)) \<and>
           (k' = ''none'' \<longrightarrow> solver p2 = CS_PARAM_SADDLE_SOLVER_NONE) \<and>
           (k' = ''minres'' \<longrightarrow> solver p2 = CS_PARAM_SADDLE_SOLVER_MINRES) \<and>
           (k' = ''mumps'' \<longrightarrow> solver p2 = CS_PARAM_SADDLE_SOLVER_MUMPS) \<and>
           (k' = ''uzawa_cg'' \<longrightarrow> solver p2 = CS_PARAM_SADDLE_SOLVER_UZAWA_CG) \<and>
           (k' = ''none'' \<or> k' = ''minres'' \<or> k' = ''mumps'' \<or> k' = ''uzawa_cg'' \<longrightarrow>
              context_ptr p2 = context_ptr p1 \<and> ctx_heap m2 = ctx_heap m1)"
proof -
  have "\<exists>p1. heap_get (saddle_heap m1) a = Some p1 \<and>
              valid_or_null (context_ptr p1) (ctx_heap m1)"
  proof -
    from set_solver_zero_keys [OF r1]
    consider "k = ''gcr'' \<or> k = ''notay'' \<or> k = ''fgmres''" | "k = ''alu'' \<or> k = ''gkb''"
      | "k = ''none'' \<or> k = ''minres'' \<or> k = ''mumps'' \<or> k = ''uzawa_cg''"
      by (elim disjE) simp_all
    then show ?thesis
    proof cases
      case 1
      from set_solver_step_ctx [OF r1 p wf 1] show ?thesis by blast
    next
      case 2
      from set_solver_step_transfo [OF r1 p wf 2] show ?thesis by blast
    next
      case 3
      from set_solver_step_plain [OF r1 p 3] wf show ?thesis by auto
    qed
  qed
  then obtain p1 where p1: "heap_get (saddle_heap m1) a = Some p1"
    and wf1: "valid_or_null (context_ptr p1) (ctx_heap m1)" by blast
  from set_solver_zero_keys [OF r2]
  consider "k' = ''gcr'' \<or> k' = ''notay'' \<or> k' = ''fgmres''" | "k' = ''alu'' \<or> k' = ''gkb''"
    | "k' = ''none'' \<or> k' = ''minres'' \<or> k' = ''mumps'' \<or> k' = ''uzawa_cg''"
    by (elim disjE) simp_all
  then show ?thesis
  proof cases
    case 1
    from set_solver_step_ctx [OF r2 p1 wf1 1] obtain p2 where
      "heap_get (saddle_heap m2) a = Some p2"
      "solver p2 = (if k' = ''gcr'' then CS_PARAM_SADDLE_SOLVER_GCR
                    else if k' = ''notay'' then CS_PARAM_SADDLE_SOLVER_NOTAY_TRANSFORM
                    else CS_PARAM_SADDLE_SOLVER_FGMRES)"
      "get_ctx (context_ptr p2) m2 =
         Some (if k' = ''notay'' then Context_notay 1 else Context_block_krylov 30)"
      "\<forall>c. context_ptr p1 = Some c \<longrightarrow> heap_get (ctx_heap m2) c = None \<and> context_ptr p2 \<noteq> Some c"
      by blast
    with p1 1 show ?thesis by (elim disjE) (rule exI [of _ p1], rule exI [of _ p2], simp)+
  next
    case 2
    from set_solver_step_transfo [OF r2 p1 wf1 2] obtain p2 where
      "heap_get (saddle_heap m2) a = Some p2"
      "solver p2 = (if k' = ''alu'' then CS_PARAM_SADDLE_SOLVER_ALU
                    else CS_PARAM_SADDLE_SOLVER_GKB)"
      "get_ctx (context_ptr p2) m2 =
         Some (if k' = ''alu'' then Context_alu 100 False else Context_gkb 0 5 False)"
      "\<forall>c. context_ptr p1 = Some c \<longrightarrow> heap_get (ctx_heap m2) c = None \<and> context_ptr p2 \<noteq> Some c"
      by blast
    with p1 2 show ?thesis by (elim disjE) (rule exI [of _ p1], rule exI [of _ p2], simp)+
  next
    case 3
    from set_solver_step_plain [OF r2 p1 3] obtain p2 where
      "heap_get (saddle_heap m2) a = Some p2"
      "solver p2 = (if k' = ''none'' then CS_PARAM_SADDLE_SOLVER_NONE
                    else if k' = ''minres'' then CS_PARAM_SADDLE_SOLVER_MINRES
                    else if k' = ''mumps'' then CS_PARAM_SADDLE_SOLVER_MUMPS
                    else CS_PARAM_SADDLE_SOLVER_UZAWA_CG)"
      "context_ptr p2 = context_ptr p1" "ctx_heap m2 = ctx_heap m1"
      by blast
    with p1 3 show ?thesis by (elim disjE) (rule exI [of _ p1], rule exI [of _ p2], simp)+
  qed
qed

theorem set_solver_twice_context_witness:
  "heap_get (saddle_heap ex_mem) 0 = Some ex_saddle \<and>
   valid_or_null (context_ptr ex_saddle) (ctx_heap ex_mem) \<and>
   (\<exists>m1 m2 p1 p2.
      cs_param_saddle_set_solver ex_ext (Some ''alu'') (Some 0) ex_mem = Some (0, m1) \<and>
      cs_param_saddle_set_solver ex_ext (Some ''gcr'') (Some 0) m1 = Some (0, m2) \<and>
      heap_get (saddle_heap m1) 0 = Some p1 \<and> heap_get (saddle_heap m2) 0 = Some p2 \<and>
      context_ptr p1 = Some 0 \<and>
      solver p2 = CS_PARAM_SADDLE_SOLVER_GCR \<and>
      get_ctx (context_ptr p2) m2 = Some (Context_block_krylov 30) \<and>
      heap_get (ctx_heap m2) 0 = None \<and> context_ptr p2 \<noteq> Some 0)"
proof -
  have p: "heap_get (saddle_heap ex_mem) 0 = Some ex_saddle"
    by (simp add: ex_defs heap_get_def)
  have wf: "valid_or_null (context_ptr ex_saddle) (ctx_heap ex_mem)"
    by (simp add: valid_or_null_def ex_defs)
  have "\<exists>m1 p1. cs_param_saddle_set_solver ex_ext (Some ''alu'') (Some 0) ex_mem = Some (0, m1) \<and>
          heap_get (saddle_heap m1) 0 = Some p1 \<and> context_ptr p1 = Some 0 \<and>
          (\<exists>m2. cs_param_saddle_set_solver ex_ext (Some ''gcr'') (Some 0) m1 = Some (0, m2))"
    by (simp add: cs_param_saddle_set_solver_def run_simps valid_or_null_def release_def
          heap_get_def ex_defs)
  then obtain m1 m2 p1 where
    r1: "cs_param_saddle_set_solver ex_ext (Some ''alu'') (Some 0) ex_mem = Some (0, m1)"
    and p1: "heap_get (saddle_heap m1) 0 = Some p1" "context_ptr p1 = Some 0"
    and r2: "cs_param_saddle_set_solver ex_ext (Some ''gcr'') (Some 0) m1 = Some (0, m2)"
    by blast
  from set_solver_twice_context [OF p wf r1 r2] p1 p wf r1 r2 show ?thesis
    by auto
qed

text \<open>
  C2 as stated fails: after "alu" and then "minres" the solver is MINRES, a solver without
  context scalars, and the record still points to the ALU context allocated for "alu",
  which has not been freed.
\<close>

theorem set_solver_twice_context_counterexample:
  "\<exists>m1 m2 p1 p2.
     cs_param_saddle_set_solver ex_ext (Some ''alu'') (Some 0) ex_mem = Some (0, m1) \<and>
     cs_param_saddle_set_solver ex_ext (Some ''minres'') (Some 0) m1 = Some (0, m2) \<and>
     heap_get (saddle_heap m1) 0 = Some p1 \<and> context_ptr p1 = Some 0 \<and>
     heap_get (saddle_heap m2) 0 = Some p2 \<and>
     solver p2 = CS_PARAM_SADDLE_SOLVER_MINRES \<and>
     context_ptr p2 = Some 0 \<and>
     heap_get (ctx_heap m2) 0 = Some (Context_alu 100 False)"
  by (simp add: cs_param_saddle_set_solver_def run_simps valid_or_null_def release_def
        heap_get_def ex_defs)

text \<open>
  C3. The claim asks that \<open>cs_cdofb_monolithic_sles_full_system\<close> stops with its fatal error
  only when the solver is neither MUMPS nor FGMRES. The code tests
  \<open>solver != MUMPS || solver != FGMRES\<close>, which holds for every solver: the driver stops
  with the fatal error for every record, MUMPS and FGMRES included, and never reaches the
  solve. \<open>cs_cdofb_monolithic_sles_notay\<close> stops exactly when the solver is not the Notay
  transformation.
\<close>

theorem full_system_guard_always_fatal:
  assumes "get_saddle (param s) m = Some saddlep"
  shows "cs_cdofb_monolithic_sles_full_system full_system_solve nsp (Some s) u_f p_c m =
           Some (Inl ''Full system solver is expected.'') \<and>
         cs_cdofb_monolithic_sles_notay notay_solve nsp (Some s) u_f p_c m =
           (if solver saddlep = CS_PARAM_SADDLE_SOLVER_NOTAY_TRANSFORM
            then Some (Inr (notay_solve s u_f p_c))
            else Some (Inl ''Notay's transformation is expected.''))"
  using assms
  by (cases "solver saddlep")
    (simp_all add: cs_cdofb_monolithic_sles_full_system_def cs_cdofb_monolithic_sles_notay_def)

theorem full_system_guard_always_fatal_witness:
  "get_saddle (Some 0)
     (ex_mem\<lparr>saddle_heap := [Some (ex_saddle\<lparr>solver := CS_PARAM_SADDLE_SOLVER_MUMPS\<rparr>)]\<rparr>) =
     Some (ex_saddle\<lparr>solver := CS_PARAM_SADDLE_SOLVER_MUMPS\<rparr>) \<and>
   cs_cdofb_monolithic_sles_full_system (\<lambda>s u p. 1) ex_nsp (Some \<lparr>param = Some 0\<rparr>) [] []
     (ex_mem\<lparr>saddle_heap := [Some (ex_saddle\<lparr>solver := CS_PARAM_SADDLE_SOLVER_MUMPS\<rparr>)]\<rparr>) =
     Some (Inl ''Full system solver is expected.'')"
proof -
  have g: "get_saddle (param \<lparr>param = Some 0\<rparr>)
     (ex_mem\<lparr>saddle_heap := [Some (ex_saddle\<lparr>solver := CS_PARAM_SADDLE_SOLVER_MUMPS\<rparr>)]\<rparr>) =
     Some (ex_saddle\<lparr>solver := CS_PARAM_SADDLE_SOLVER_MUMPS\<rparr>)"
    by (simp add: get_saddle_def heap_get_def)
  from full_system_guard_always_fatal [OF g, of "\<lambda>s u p. 1" ex_nsp "[]" "[]"] g
  show ?thesis by simp
qed

text \<open>
  C6. Given a volume for each of the \<open>n_cells\<close> cells and a first entry in the array of time
  steps, \<open>_get_m22_scaled_diag_mass_matrix\<close> returns an array with one entry per cell and a
  scaling. The entry of cell i is mu_i / V_i, where mu_i is the reference laminar viscosity
  when turbulence is off and the total viscosity evaluated at the cell otherwise; a zero
  volume does not stop the function: that entry is the infinity or NaN of the division.
  The scaling is rho0 * alpha_t, with alpha_t = 0.01 * mu_ref when the model is steady and
  1 / dt otherwise (an infinity or a NaN when dt is zero). So in steady mode with a uniform
  viscosity mu (the reference value and the value at every cell) and a uniform volume V,
  every entry is mu / V and the scaling is rho0 * 0.01 * mu.
\<close>

theorem m22_scaled_diag_mass_matrix:
  assumes vol: "nat (n_cells cdoq) \<le> length (cell_vol cdoq)"
    and dt: "dt ts \<noteq> []"
  shows "\<exists>m22_mass_diag schur_scaling.
           get_m22_scaled_diag_mass_matrix K cdoq ts nsp = Some (m22_mass_diag, schur_scaling) \<and>
           length m22_mass_diag = nat (n_cells cdoq) \<and>
           (\<forall>i < nat (n_cells cdoq).
              m22_mass_diag ! i =
                (if cell_vol cdoq ! i = 0 then Inf_or_NaN
                 else Finite ((if iturb (model (turbulence nsp)) = CS_TURB_NONE K
                               then ref_value (lam_viscosity nsp)
                               else value_at (tot_viscosity nsp) (t_cur ts) i) / cell_vol cdoq ! i))) \<and>
           schur_scaling =
             (if and (model_flag nsp) (CS_NAVSTO_MODEL_STEADY K) \<noteq> 0
              then Finite (ref_value (mass_density nsp) * (0.01 * ref_value (lam_viscosity nsp)))
              else if dt ts ! 0 = 0 then Inf_or_NaN
              else Finite (ref_value (mass_density nsp) * (1 / dt ts ! 0))) \<and>
           (\<forall>mu V.
              and (model_flag nsp) (CS_NAVSTO_MODEL_STEADY K) \<noteq> 0 \<and>
              ref_value (lam_viscosity nsp) = mu \<and>
              (\<forall>i < nat (n_cells cdoq). value_at (tot_viscosity nsp) (t_cur ts) i = mu) \<and>
              (\<forall>i < nat (n_cells cdoq). cell_vol cdoq ! i = V) \<longrightarrow>
              (\<forall>i < nat (n_cells cdoq).
                 m22_mass_diag ! i = (if V = 0 then Inf_or_NaN else Finite (mu / V))) \<and>
              schur_scaling = Finite (ref_value (mass_density nsp) * 0.01 * mu))"
proof -
  let ?n = "nat (n_cells cdoq)"
  let ?mu = "\<lambda>i. if iturb (model (turbulence nsp)) = CS_TURB_NONE K
               then ref_value (lam_viscosity nsp)
               else value_at (tot_viscosity nsp) (t_cur ts) i"
  let ?e = "\<lambda>i. double_div (?mu i) (cell_vol cdoq ! i)"
  let ?s = "double_mult (ref_value (mass_density nsp))
              (if and (model_flag nsp) (CS_NAVSTO_MODEL_STEADY K) \<noteq> 0
               then Finite (0.01 * ref_value (lam_viscosity nsp))
               else double_div 1 (dt ts ! 0))"
  have off: "for_cells ?n (\<lambda>i. Option.bind (arr_get (cell_vol cdoq) i)
                (\<lambda>v. Some (double_div (ref_value (lam_viscosity nsp)) v))) =
             Some (map (\<lambda>i. double_div (ref_value (lam_viscosity nsp)) (cell_vol cdoq ! i)) [0..<?n])"
    using vol by (intro for_cells_map) (simp add: arr_get_def)
  have on: "for_cells ?n (\<lambda>i. Option.bind
                (arr_get (cs_property_eval_at_cells (t_cur ts) (tot_viscosity nsp) ?n) i)
                (\<lambda>mu. Option.bind (arr_get (cell_vol cdoq) i) (\<lambda>v. Some (double_div mu v)))) =
            Some (map (\<lambda>i. double_div (value_at (tot_viscosity nsp) (t_cur ts) i)
                              (cell_vol cdoq ! i)) [0..<?n])"
    using vol by (intro for_cells_map) (simp add: arr_get_def cs_property_eval_at_cells_def)
  have run: "get_m22_scaled_diag_mass_matrix K cdoq ts nsp = Some (map ?e [0..<?n], ?s)"
    using dt off on by (simp add: get_m22_scaled_diag_mass_matrix_def Let_def arr_get_def)
  have entries: "\<forall>i<?n. map ?e [0..<?n] ! i =
      (if cell_vol cdoq ! i = 0 then Inf_or_NaN else Finite (?mu i / cell_vol cdoq ! i))"
    by (simp add: double_div_def)
  have scaling: "?s =
      (if and (model_flag nsp) (CS_NAVSTO_MODEL_STEADY K) \<noteq> 0
       then Finite (ref_value (mass_density nsp) * (0.01 * ref_value (lam_viscosity nsp)))
       else if dt ts ! 0 = 0 then Inf_or_NaN
       else Finite (ref_value (mass_density nsp) * (1 / dt ts ! 0)))"
    by (simp add: double_div_def double_mult_def)
  have len: "length (map ?e [0..<?n]) = ?n" by simp
  show ?thesis
  proof (intro exI conjI)
    show "get_m22_scaled_diag_mass_matrix K cdoq ts nsp = Some (map ?e [0..<?n], ?s)"
      by (rule run)
    show "length (map ?e [0..<?n]) = ?n" by (rule len)
    show "\<forall>i<?n. map ?e [0..<?n] ! i =
      (if cell_vol cdoq ! i = 0 then Inf_or_NaN else Finite (?mu i / cell_vol cdoq ! i))"
      by (rule entries)
    show "?s =
      (if and (model_flag nsp) (CS_NAVSTO_MODEL_STEADY K) \<noteq> 0
       then Finite (ref_value (mass_density nsp) * (0.01 * ref_value (lam_viscosity nsp)))
       else if dt ts ! 0 = 0 then Inf_or_NaN
       else Finite (ref_value (mass_density nsp) * (1 / dt ts ! 0)))"
      by (rule scaling)
    show "\<forall>mu V.
              and (model_flag nsp) (CS_NAVSTO_MODEL_STEADY K) \<noteq> 0 \<and>
              ref_value (lam_viscosity nsp) = mu \<and>
              (\<forall>i < ?n. value_at (tot_viscosity nsp) (t_cur ts) i = mu) \<and>
              (\<forall>i < ?n. cell_vol cdoq ! i = V) \<longrightarrow>
              (\<forall>i < ?n. map ?e [0..<?n] ! i = (if V = 0 then Inf_or_NaN else Finite (mu / V))) \<and>
              ?s = Finite (ref_value (mass_density nsp) * 0.01 * mu)"
      by (auto simp: double_div_def double_mult_def)
  qed
qed

theorem m22_scaled_diag_mass_matrix_witness:
  "nat (n_cells ex_quant) \<le> length (cell_vol ex_quant) \<and> dt ex_ts \<noteq> [] \<and>
   get_m22_scaled_diag_mass_matrix ex_consts ex_quant ex_ts ex_nsp =
     Some ([Finite (1 / 2), Finite (1 / 2)], Finite (3 / 50)) \<and>
   get_m22_scaled_diag_mass_matrix ex_consts (ex_quant\<lparr>cell_vol := [4, 0]\<rparr>) ex_ts
       (ex_nsp\<lparr>model_flag := 0\<rparr>) =
     Some ([Finite (1 / 2), Inf_or_NaN], Finite 6)"
proof -
  have vol: "nat (n_cells ex_quant) \<le> length (cell_vol ex_quant)"
    "nat (n_cells (ex_quant\<lparr>cell_vol := [4, 0]\<rparr>)) \<le> length (cell_vol (ex_quant\<lparr>cell_vol := [4, 0]\<rparr>))"
    by (simp_all add: ex_quant_def)
  have dt: "dt ex_ts \<noteq> []" by (simp add: ex_ts_def)
  have two: "nat 2 = Suc (Suc 0)" by simp
  from m22_scaled_diag_mass_matrix [OF vol(1) dt, of ex_consts ex_nsp]
  obtain d s where
    r: "get_m22_scaled_diag_mass_matrix ex_consts ex_quant ex_ts ex_nsp = Some (d, s)"
    and l: "length d = nat (n_cells ex_quant)"
    and e: "\<forall>i < nat (n_cells ex_quant).
              d ! i =
                (if cell_vol ex_quant ! i = 0 then Inf_or_NaN
                 else Finite ((if iturb (model (turbulence ex_nsp)) = CS_TURB_NONE ex_consts
                               then ref_value (lam_viscosity ex_nsp)
                               else value_at (tot_viscosity ex_nsp) (t_cur ex_ts) i) /
                              cell_vol ex_quant ! i))"
    and s: "s =
             (if and (model_flag ex_nsp) (CS_NAVSTO_MODEL_STEADY ex_consts) \<noteq> 0
              then Finite (ref_value (mass_density ex_nsp) * (0.01 * ref_value (lam_viscosity ex_nsp)))
              else if dt ex_ts ! 0 = 0 then Inf_or_NaN
              else Finite (ref_value (mass_density ex_nsp) * (1 / dt ex_ts ! 0)))"
    by blast
  from l have l2: "length d = 2" by (simp add: ex_quant_def)
  from e have "d ! 0 = Finite (1 / 2)" "d ! 1 = Finite (1 / 2)"
    by (simp_all add: ex_quant_def ex_nsp_def ex_consts_def)
  with l2 have d: "d = [Finite (1 / 2), Finite (1 / 2)]"
    by (intro nth_equalityI) (auto simp: less_Suc_eq numeral_2_eq_2)
  from s have s': "s = Finite (3 / 50)"
    by (simp add: ex_nsp_def ex_consts_def)
  have r2: "get_m22_scaled_diag_mass_matrix ex_consts (ex_quant\<lparr>cell_vol := [4, 0]\<rparr>) ex_ts
       (ex_nsp\<lparr>model_flag := 0\<rparr>) = Some ([Finite (1 / 2), Inf_or_NaN], Finite 6)"
    by (simp add: get_m22_scaled_diag_mass_matrix_def ex_consts_def ex_quant_def ex_ts_def
          ex_nsp_def two arr_get_def double_div_def double_mult_def numeral_2_eq_2)
  from vol(1) dt r d s' r2 show ?thesis by simp
qed

text \<open>
  C5. Take a mesh whose face to cell adjacencies name cells below \<open>n_cells_with_ghosts\<close> and
  a diagonal approximation D of the inverse of M11 with three entries per face. Then
  \<open>_schur_matrix_from_m11_inv_approx\<close> returns: the diagonal array has
  \<open>n_cells_with_ghosts\<close> entries and the extra-diagonal array two entries per interior
  face; the two entries \<open>xtra[2f]\<close> and \<open>xtra[2f + 1]\<close> of the interior face f both hold its
  contribution \<open>- A\<^sup>2 \<Sum>\<^sub>k D[3f + k] n\<^sub>k\<^sup>2\<close>; and the diagonal entry of a cell is zero, minus
  the contributions of the interior faces of which it is the first cell, minus those of
  which it is the second cell, plus the contributions \<open>A\<^sup>2 \<Sum>\<^sub>k D[3 n_i_faces + 3f + k] n\<^sub>k\<^sup>2\<close>
  of its boundary faces.
\<close>

theorem schur_matrix_coefficients:
  assumes D: "3 * nat (n_i_faces mesh) + 3 * nat (n_b_faces mesh) \<le> length D"
    and ifc: "nat (n_i_faces mesh) \<le> length (i_face_cells mesh)"
    and ifc_range: "\<forall>f < nat (n_i_faces mesh).
        0 \<le> fst (i_face_cells mesh ! f) \<and> fst (i_face_cells mesh ! f) < n_cells_with_ghosts mesh \<and>
        0 \<le> snd (i_face_cells mesh ! f) \<and> snd (i_face_cells mesh ! f) < n_cells_with_ghosts mesh"
    and bfc: "nat (n_b_faces mesh) \<le> length (b_face_cells mesh)"
    and bfc_range: "\<forall>f < nat (n_b_faces mesh).
        0 \<le> b_face_cells mesh ! f \<and> b_face_cells mesh ! f < n_cells_with_ghosts mesh"
  shows "\<exists>diag_smat xtra_smat.
         schur_matrix_from_m11_inv_approx mesh quant mat_class D =
           Some (if mat_class = CS_PARAM_SOLVER_CLASS_HYPRE then HYPRE_ParCSR else MSR,
                 diag_smat, xtra_smat) \<and>
         length diag_smat = nat (n_cells_with_ghosts mesh) \<and>
         length xtra_smat = 2 * nat (n_i_faces mesh) \<and>
         (\<forall>f < nat (n_i_faces mesh).
            xtra_smat ! (2 * f) = i_contrib quant D f \<and>
            xtra_smat ! (2 * f + 1) = i_contrib quant D f) \<and>
         (\<forall>c < nat (n_cells_with_ghosts mesh).
            diag_smat ! c =
              0 - (\<Sum>f < nat (n_i_faces mesh).
                     if fst (i_face_cells mesh ! f) = int c then i_contrib quant D f else 0)
                - (\<Sum>f < nat (n_i_faces mesh).
                     if snd (i_face_cells mesh ! f) = int c then i_contrib quant D f else 0)
                + (\<Sum>f < nat (n_b_faces mesh).
                     if b_face_cells mesh ! f = int c then b_contrib mesh quant D f else 0))"
proof -
  define N where "N = nat (n_cells_with_ghosts mesh)"
  define ni where "ni = nat (n_i_faces mesh)"
  define nb where "nb = nat (n_b_faces mesh)"
  define I where "I i st = (length (fst st) = N \<and> length (snd st) = 2 * ni)"
    for i :: nat and st :: "real list \<times> real list"
  have two: "nat (2 * n_i_faces mesh) = 2 * ni"
    by (simp add: ni_def nat_mult_distrib)
  have "\<exists>s. for_loop [0..<ni] (i_face_body mesh quant D) (replicate N 0, replicate (2 * ni) 0)
               = Some s \<and> I ni s"
  proof (rule for_loop_upt_total)
    show "I 0 (replicate N 0, replicate (2 * ni) 0)" by (simp add: I_def)
  next
    fix i t
    assume i: "i < ni" and It: "I i t"
    obtain d x where t: "t = (d, x)" by (cases t)
    from It t have len: "length d = N" "length x = 2 * ni" by (simp_all add: I_def)
    from ifc_range i have r: "0 \<le> fst (i_face_cells mesh ! i)"
      "fst (i_face_cells mesh ! i) < int N" "0 \<le> snd (i_face_cells mesh ! i)"
      "snd (i_face_cells mesh ! i) < int N"
      by (auto simp: ni_def N_def)
    have "\<exists>d' x'. i_face_body mesh quant D i (d, x) = Some (d', x')"
      using i D ifc r len by (intro i_face_body_total) (simp_all add: ni_def)
    then obtain d' x' where b: "i_face_body mesh quant D i (d, x) = Some (d', x')" by blast
    from i_face_body_Some [OF b] len have "I (Suc i) (d', x')" by (simp add: I_def)
    with b t show "\<exists>t'. i_face_body mesh quant D i t = Some t' \<and> I (Suc i) t'" by simp
  qed
  then obtain d1 x1 where
    L1: "for_loop [0..<ni] (i_face_body mesh quant D) (replicate N 0, replicate (2 * ni) 0)
           = Some (d1, x1)"
    and I1: "I ni (d1, x1)" by auto
  have "\<exists>s. for_loop [0..<nb] (b_face_body mesh quant D) (d1, x1) = Some s \<and> I nb s"
  proof (rule for_loop_upt_total)
    show "I 0 (d1, x1)" using I1 by (simp add: I_def)
  next
    fix i t
    assume i: "i < nb" and It: "I i t"
    obtain d x where t: "t = (d, x)" by (cases t)
    from It t have len: "length d = N" "length x = 2 * ni" by (simp_all add: I_def)
    from bfc_range i have r: "0 \<le> b_face_cells mesh ! i" "b_face_cells mesh ! i < int N"
      by (auto simp: nb_def N_def)
    have "\<exists>d' x'. b_face_body mesh quant D i (d, x) = Some (d', x')"
      using i D bfc r len by (intro b_face_body_total) (simp_all add: nb_def)
    then obtain d' x' where b: "b_face_body mesh quant D i (d, x) = Some (d', x')" by blast
    from b_face_body_Some [OF b] len have "I (Suc i) (d', x')" by (simp add: I_def)
    with b t show "\<exists>t'. b_face_body mesh quant D i t = Some t' \<and> I (Suc i) t'" by simp
  qed
  then obtain d2 x2 where
    L2: "for_loop [0..<nb] (b_face_body mesh quant D) (d1, x1) = Some (d2, x2)" by auto
  have run: "schur_matrix_from_m11_inv_approx mesh quant mat_class D =
               Some (if mat_class = CS_PARAM_SOLVER_CLASS_HYPRE then HYPRE_ParCSR else MSR, d2, x2)"
    using L1 L2
    by (simp add: schur_matrix_from_m11_inv_approx_def Let_def two N_def [symmetric]
          ni_def [symmetric] nb_def [symmetric])
  from schur_matrix_from_m11_inv_approx_Some [OF run] run show ?thesis by blast
qed

theorem schur_matrix_coefficients_witness:
  "3 * nat (n_i_faces ex_mesh) + 3 * nat (n_b_faces ex_mesh) \<le>
     length [1, 2, 3, 4, 5, 6, 7, 8, 9 :: real] \<and>
   nat (n_i_faces ex_mesh) \<le> length (i_face_cells ex_mesh) \<and>
   nat (n_b_faces ex_mesh) \<le> length (b_face_cells ex_mesh) \<and>
   i_face_cells ex_mesh = [(0, 1)] \<and> b_face_cells ex_mesh = [0, 1] \<and>
   n_cells_with_ghosts ex_mesh = 2 \<and>
   schur_matrix_from_m11_inv_approx ex_mesh ex_quant CS_PARAM_SOLVER_CLASS_CS
     [1, 2, 3, 4, 5, 6, 7, 8, 9] = Some (MSR, [9, 12], [- 4, - 4]) \<and>
   i_contrib ex_quant [1, 2, 3, 4, 5, 6, 7, 8, 9] 0 = - 4 \<and>
   b_contrib ex_mesh ex_quant [1, 2, 3, 4, 5, 6, 7, 8, 9] 0 = 5 \<and>
   b_contrib ex_mesh ex_quant [1, 2, 3, 4, 5, 6, 7, 8, 9] 1 = 8"
proof -
  let ?D = "[1, 2, 3, 4, 5, 6, 7, 8, 9 :: real]"
  have D: "3 * nat (n_i_faces ex_mesh) + 3 * nat (n_b_faces ex_mesh) \<le> length ?D"
    by (simp add: ex_mesh_def)
  have ifc: "nat (n_i_faces ex_mesh) \<le> length (i_face_cells ex_mesh)"
    and bfc: "nat (n_b_faces ex_mesh) \<le> length (b_face_cells ex_mesh)"
    by (simp_all add: ex_mesh_def)
  have ifc_range: "\<forall>f < nat (n_i_faces ex_mesh).
        0 \<le> fst (i_face_cells ex_mesh ! f) \<and>
        fst (i_face_cells ex_mesh ! f) < n_cells_with_ghosts ex_mesh \<and>
        0 \<le> snd (i_face_cells ex_mesh ! f) \<and>
        snd (i_face_cells ex_mesh ! f) < n_cells_with_ghosts ex_mesh"
    by (simp add: ex_mesh_def)
  have bfc_range: "\<forall>f < nat (n_b_faces ex_mesh).
        0 \<le> b_face_cells ex_mesh ! f \<and> b_face_cells ex_mesh ! f < n_cells_with_ghosts ex_mesh"
    by (simp add: ex_mesh_def less_Suc_eq numeral_2_eq_2)
  have c: "i_contrib ex_quant ?D 0 = - 4" "b_contrib ex_mesh ex_quant ?D 0 = 5"
    "b_contrib ex_mesh ex_quant ?D 1 = 8"
    by (simp_all add: i_contrib_def b_contrib_def ex_mesh_def ex_quant_def eval_nat_numeral)
  have m: "i_face_cells ex_mesh = [(0, 1)]" "b_face_cells ex_mesh = [0, 1]"
    "n_cells_with_ghosts ex_mesh = 2" "n_i_faces ex_mesh = 1" "n_b_faces ex_mesh = 2"
    by (simp_all add: ex_mesh_def)
  from schur_matrix_coefficients [OF D ifc ifc_range bfc bfc_range, of ex_quant
    CS_PARAM_SOLVER_CLASS_CS]
  obtain d x where
    r: "schur_matrix_from_m11_inv_approx ex_mesh ex_quant CS_PARAM_SOLVER_CLASS_CS ?D =
          Some (MSR, d, x)"
    and ld: "length d = 2" and lx: "length x = 2"
    and xs: "\<forall>f < nat (n_i_faces ex_mesh).
            x ! (2 * f) = i_contrib ex_quant ?D f \<and> x ! (2 * f + 1) = i_contrib ex_quant ?D f"
    and ds: "\<forall>c < nat (n_cells_with_ghosts ex_mesh).
            d ! c =
              0 - (\<Sum>f < nat (n_i_faces ex_mesh).
                     if fst (i_face_cells ex_mesh ! f) = int c then i_contrib ex_quant ?D f else 0)
                - (\<Sum>f < nat (n_i_faces ex_mesh).
                     if snd (i_face_cells ex_mesh ! f) = int c then i_contrib ex_quant ?D f else 0)
                + (\<Sum>f < nat (n_b_faces ex_mesh).
                     if b_face_cells ex_mesh ! f = int c then b_contrib ex_mesh ex_quant ?D f else 0)"
    by (auto simp: m)
  from xs c have "x ! 0 = - 4" "x ! 1 = - 4" by (simp_all add: m)
  with lx have x: "x = [- 4, - 4]"
    by (intro nth_equalityI) (auto simp: less_Suc_eq numeral_2_eq_2)
  from ds c have "d ! 0 = 9" "d ! 1 = 12"
    by (simp_all add: m lessThan_Suc numeral_2_eq_2)
  with ld have d: "d = [9, 12]"
    by (intro nth_equalityI) (auto simp: less_Suc_eq numeral_2_eq_2)
  from D ifc bfc m r c d x show ?thesis by simp
qed

text \<open>
  C8 (as amended). Take three distinct records p1, p2, p3 whose Schur and extra solver
  pointers are NULL or live and name six different blocks, p1 referring to a live
  (1,1)-block solver. Then \<open>cs_param_saddle_copy\<close> from p1 to p2
  and then from p2 to p3 both return, and leave p1 as it was. Afterwards p3 has the solver,
  the class, the preconditioner, the Schur approximation, the four convergence parameters
  and the (1,1)-block reference of p1. When the Schur solver (the extra solver) of p1 is
  not NULL, it is as before the copies, and p3 has a Schur solver (an extra solver) with
  the same settings, all fields but the name. The Schur and extra solvers of the three
  records are live and in different blocks: the copy is deep.
\<close>

theorem copy_twice:
  assumes d: "distinct [a1, a2, a3]"
    and p1: "heap_get (saddle_heap m) a1 = Some p1"
    and p2: "heap_get (saddle_heap m) a2 = Some p2"
    and p3: "heap_get (saddle_heap m) a3 = Some p3"
    and own: "owned_apart [schur_sles_param p1, xtra_sles_param p1,
                           schur_sles_param p2, xtra_sles_param p2,
                           schur_sles_param p3, xtra_sles_param p3] (sles_heap m)"
    and b11: "block11_sles_param p1 = Some b" "heap_get (sles_heap m) b = Some vb"
  shows "\<exists>m1 m2 p2' p3'.
           cs_param_saddle_copy X (Some a1) (Some a2) m = Some m1 \<and>
           cs_param_saddle_copy X (Some a2) (Some a3) m1 = Some m2 \<and>
           heap_get (saddle_heap m2) a1 = Some p1 \<and>
           heap_get (saddle_heap m2) a2 = Some p2' \<and>
           heap_get (saddle_heap m2) a3 = Some p3' \<and>
           solver p3' = solver p1 \<and> solver_class p3' = solver_class p1 \<and>
           precond p3' = precond p1 \<and> schur_approx p3' = schur_approx p1 \<and>
           cvg_param p3' = cvg_param p1 \<and>
           block11_sles_param p3' = block11_sles_param p1 \<and>
           (\<forall>s. schur_sles_param p1 = Some s \<longrightarrow>
              (\<exists>s' v v'. schur_sles_param p3' = Some s' \<and>
                 heap_get (sles_heap m) s = Some v \<and> heap_get (sles_heap m2) s = Some v \<and>
                 heap_get (sles_heap m2) s' = Some v' \<and> same_settings v' v)) \<and>
           (\<forall>x. xtra_sles_param p1 = Some x \<longrightarrow>
              (\<exists>x' w w'. xtra_sles_param p3' = Some x' \<and>
                 heap_get (sles_heap m) x = Some w \<and> heap_get (sles_heap m2) x = Some w \<and>
                 heap_get (sles_heap m2) x' = Some w' \<and> same_settings w' w)) \<and>
           owned_apart [schur_sles_param p1, xtra_sles_param p1,
                        schur_sles_param p2', xtra_sles_param p2',
                        schur_sles_param p3', xtra_sles_param p3'] (sles_heap m2)"
proof -
  from d have ne: "a1 \<noteq> a2" "a2 \<noteq> a3" "a3 \<noteq> a2" "a1 \<noteq> a3" by auto
  note splits = owned_apart_def map_filter_simps valid_or_null_Some
  have own12: "owned_apart [schur_sles_param p1, xtra_sles_param p1,
                            schur_sles_param p2, xtra_sles_param p2] (sles_heap m)"
    using own
    by (cases "schur_sles_param p1"; cases "xtra_sles_param p1"; cases "schur_sles_param p2";
        cases "xtra_sles_param p2"; cases "schur_sles_param p3"; cases "xtra_sles_param p3")
       (auto simp: owned_apart_def map_filter_simps)
  have b11_1: "xtra_sles_param p1 \<noteq> None \<longrightarrow>
                (\<exists>b v. block11_sles_param p1 = Some b \<and> heap_get (sles_heap m) b = Some v)"
    using b11 by blast
  from copy_returns [OF ne(1) p1 p2 own12 b11_1] obtain m1 where
    c1: "cs_param_saddle_copy X (Some a1) (Some a2) m = Some m1" by blast
  from copy_once [OF c1 ne(1) p1 p2 own12] obtain p2' where
    p2': "heap_get (saddle_heap m1) a2 = Some p2'"
    and set2: "settings p2' = settings p1"
    and fr1: "\<forall>a. a \<noteq> a2 \<longrightarrow> heap_get (saddle_heap m1) a = heap_get (saddle_heap m) a"
    and len1: "length (sles_heap m) \<le> length (sles_heap m1)"
    and sfr1: "\<forall>q. q < length (sles_heap m) \<longrightarrow> Some q \<noteq> schur_sles_param p2 \<longrightarrow>
                 Some q \<noteq> xtra_sles_param p2 \<longrightarrow>
                 heap_get (sles_heap m1) q = heap_get (sles_heap m) q"
    and cs1: "clone (schur_sles_param p1) (schur_sles_param p2) (schur_sles_param p2') m m1"
    and cx1: "clone (xtra_sles_param p1) (xtra_sles_param p2) (xtra_sles_param p2') m m1"
    and v2: "valid_or_null (schur_sles_param p2') (sles_heap m1)"
            "valid_or_null (xtra_sles_param p2') (sles_heap m1)"
    and sx2: "schur_sles_param p2' = None \<or> schur_sles_param p2' \<noteq> xtra_sles_param p2'"
    and live1: "\<forall>q v. heap_get (sles_heap m) q = Some v \<longrightarrow>
                  (\<exists>v'. heap_get (sles_heap m1) q = Some v')"
    by blast
  from fr1 ne p3 have p3': "heap_get (saddle_heap m1) a3 = Some p3" by simp
  from fr1 ne p1 have p1': "heap_get (saddle_heap m1) a1 = Some p1" by simp
  have in3: "valid_or_null (Some q) (sles_heap m) \<and>
             Some q \<noteq> schur_sles_param p1 \<and> Some q \<noteq> xtra_sles_param p1 \<and>
             Some q \<noteq> schur_sles_param p2 \<and> Some q \<noteq> xtra_sles_param p2"
    if "schur_sles_param p3 = Some q \<or> xtra_sles_param p3 = Some q" for q
    using that own
    by (cases "schur_sles_param p1"; cases "xtra_sles_param p1"; cases "schur_sles_param p2";
        cases "xtra_sles_param p2"; cases "schur_sles_param p3"; cases "xtra_sles_param p3")
       (auto simp: owned_apart_def map_filter_simps)
  have in1: "valid_or_null (Some q) (sles_heap m) \<and>
             Some q \<noteq> schur_sles_param p2 \<and> Some q \<noteq> xtra_sles_param p2 \<and>
             Some q \<noteq> schur_sles_param p3 \<and> Some q \<noteq> xtra_sles_param p3"
    if "schur_sles_param p1 = Some q \<or> xtra_sles_param p1 = Some q" for q
    using that own
    by (cases "schur_sles_param p1"; cases "xtra_sles_param p1"; cases "schur_sles_param p2";
        cases "xtra_sles_param p2"; cases "schur_sles_param p3"; cases "xtra_sles_param p3")
       (auto simp: owned_apart_def map_filter_simps)
  have sx1: "schur_sles_param p1 = None \<or> schur_sles_param p1 \<noteq> xtra_sles_param p1"
    and sx3: "schur_sles_param p3 = None \<or> schur_sles_param p3 \<noteq> xtra_sles_param p3"
    using own
    by (cases "schur_sles_param p1"; cases "xtra_sles_param p1"; cases "schur_sles_param p2";
        cases "xtra_sles_param p2"; cases "schur_sles_param p3"; cases "xtra_sles_param p3";
        auto simp: owned_apart_def map_filter_simps)+
  have keep: "heap_get (sles_heap m1) q = heap_get (sles_heap m) q \<and> q < length (sles_heap m)"
    if "schur_sles_param p3 = Some q \<or> xtra_sles_param p3 = Some q \<or>
        schur_sles_param p1 = Some q \<or> xtra_sles_param p1 = Some q" for q
    using that in1 [of q] in3 [of q] sfr1 by (auto simp: valid_or_null_Some)
  have old2: "schur_sles_param p2' = schur_sles_param p2 \<or>
              (\<exists>s'. schur_sles_param p2' = Some s' \<and> length (sles_heap m) \<le> s')"
    using cs1 by (auto simp: clone_def split: option.splits)
  have oldx2: "xtra_sles_param p2' = xtra_sles_param p2 \<or>
              (\<exists>s'. xtra_sles_param p2' = Some s' \<and> length (sles_heap m) \<le> s')"
    using cx1 by (auto simp: clone_def split: option.splits)
  have apart2: "schur_sles_param p2' \<noteq> Some q \<and> xtra_sles_param p2' \<noteq> Some q"
    if "schur_sles_param p3 = Some q \<or> xtra_sles_param p3 = Some q \<or>
        schur_sles_param p1 = Some q \<or> xtra_sles_param p1 = Some q" for q
    using that in1 [of q] in3 [of q] keep [of q] old2 oldx2 by auto
  have own23: "owned_apart [schur_sles_param p2', xtra_sles_param p2',
                            schur_sles_param p3, xtra_sles_param p3] (sles_heap m1)"
  proof -
    have v3: "valid_or_null (schur_sles_param p3) (sles_heap m1)"
             "valid_or_null (xtra_sles_param p3) (sles_heap m1)"
      using keep in3
      by (cases "schur_sles_param p3"; cases "xtra_sles_param p3";
          auto simp: valid_or_null_def)+
    from v2 v3 sx2 sx3 apart2 show ?thesis
      by (cases "schur_sles_param p2'"; cases "xtra_sles_param p2'";
          cases "schur_sles_param p3"; cases "xtra_sles_param p3")
         (auto simp: owned_apart_def map_filter_simps)
  qed
  have b11_2: "xtra_sles_param p2' \<noteq> None \<longrightarrow>
                (\<exists>b v. block11_sles_param p2' = Some b \<and> heap_get (sles_heap m1) b = Some v)"
    using set2 b11 live1 by (auto simp: settings_def)
  from copy_returns [OF ne(2) p2' p3' own23 b11_2] obtain m2 where
    c2: "cs_param_saddle_copy X (Some a2) (Some a3) m1 = Some m2" by blast
  from copy_once [OF c2 ne(2) p2' p3' own23] obtain p3'' where
    p3'': "heap_get (saddle_heap m2) a3 = Some p3''"
    and set3: "settings p3'' = settings p2'"
    and fr2: "\<forall>a. a \<noteq> a3 \<longrightarrow> heap_get (saddle_heap m2) a = heap_get (saddle_heap m1) a"
    and len2: "length (sles_heap m1) \<le> length (sles_heap m2)"
    and sfr2: "\<forall>q. q < length (sles_heap m1) \<longrightarrow> Some q \<noteq> schur_sles_param p3 \<longrightarrow>
                 Some q \<noteq> xtra_sles_param p3 \<longrightarrow>
                 heap_get (sles_heap m2) q = heap_get (sles_heap m1) q"
    and cs2: "clone (schur_sles_param p2') (schur_sles_param p3) (schur_sles_param p3'') m1 m2"
    and cx2: "clone (xtra_sles_param p2') (xtra_sles_param p3) (xtra_sles_param p3'') m1 m2"
    and v3: "valid_or_null (schur_sles_param p3'') (sles_heap m2)"
            "valid_or_null (xtra_sles_param p3'') (sles_heap m2)"
    and sx3'': "schur_sles_param p3'' = None \<or> schur_sles_param p3'' \<noteq> xtra_sles_param p3''"
    and live2: "\<forall>q v. heap_get (sles_heap m1) q = Some v \<longrightarrow>
                  (\<exists>v'. heap_get (sles_heap m2) q = Some v')"
    by blast
  from fr2 ne p1' have p1'': "heap_get (saddle_heap m2) a1 = Some p1" by simp
  from fr2 ne p2' have p2'': "heap_get (saddle_heap m2) a2 = Some p2'" by simp
  have same1: "heap_get (sles_heap m2) q = heap_get (sles_heap m) q \<and> q < length (sles_heap m)"
    if "schur_sles_param p1 = Some q \<or> xtra_sles_param p1 = Some q" for q
  proof -
    from that keep [of q] in1 [of q] have
      "heap_get (sles_heap m1) q = heap_get (sles_heap m) q" "q < length (sles_heap m)"
      "Some q \<noteq> schur_sles_param p3" "Some q \<noteq> xtra_sles_param p3"
      by auto
    with sfr2 len1 show ?thesis by auto
  qed
  have chain: "\<exists>s' v v'. q3' = Some s' \<and>
                 heap_get (sles_heap m) s = Some v \<and> heap_get (sles_heap m2) s' = Some v' \<and>
                 same_settings v' v"
    if q1: "q1 = Some s" and k1: "clone q1 q2 q2' m m1" and k2: "clone q2' q3 q3' m1 m2"
    for q1 q2 q2' q3 q3' s
  proof -
    from q1 k1 obtain s2 v v2 where
      "q2' = Some s2" "heap_get (sles_heap m) s = Some v" "heap_get (sles_heap m1) s2 = Some v2"
      "same_settings v2 v"
      by (auto simp: clone_def)
    moreover from this k2 obtain s3 v3 where
      "q3' = Some s3" "heap_get (sles_heap m2) s3 = Some v3" "same_settings v3 v2"
      by (auto simp: clone_def)
    ultimately show ?thesis
      by (auto simp: same_settings_def)
  qed
  have new3: "schur_sles_param p3'' = schur_sles_param p3 \<or>
              (\<exists>s'. schur_sles_param p3'' = Some s' \<and> length (sles_heap m1) \<le> s')"
    using cs2 by (auto simp: clone_def split: option.splits)
  have newx3: "xtra_sles_param p3'' = xtra_sles_param p3 \<or>
              (\<exists>s'. xtra_sles_param p3'' = Some s' \<and> length (sles_heap m1) \<le> s')"
    using cx2 by (auto simp: clone_def split: option.splits)
  have lt2: "q < length (sles_heap m1)"
    if "schur_sles_param p2' = Some q \<or> xtra_sles_param p2' = Some q" for q
    using that v2 by (auto simp: valid_or_null_Some)
  have apart3: "schur_sles_param p3'' \<noteq> Some q \<and> xtra_sles_param p3'' \<noteq> Some q"
    if "schur_sles_param p1 = Some q \<or> xtra_sles_param p1 = Some q \<or>
        schur_sles_param p2' = Some q \<or> xtra_sles_param p2' = Some q" for q
  proof -
    have "q < length (sles_heap m1)"
      using that lt2 [of q] keep [of q] len1 by auto
    moreover have "schur_sles_param p3 \<noteq> Some q \<and> xtra_sles_param p3 \<noteq> Some q"
      using that in1 [of q] apart2 by (metis option.inject)
    ultimately show ?thesis using new3 newx3 by auto
  qed
  have live_m2: "valid_or_null (Some q) (sles_heap m2)"
    if "schur_sles_param p1 = Some q \<or> xtra_sles_param p1 = Some q \<or>
        schur_sles_param p2' = Some q \<or> xtra_sles_param p2' = Some q" for q
  proof -
    have "\<exists>v. heap_get (sles_heap m1) q = Some v"
      using that v2 in1 [of q] live1 by (auto simp: valid_or_null_def)
    with live2 show ?thesis by (auto simp: valid_or_null_def)
  qed
  have own_all: "owned_apart [schur_sles_param p1, xtra_sles_param p1,
                        schur_sles_param p2', xtra_sles_param p2',
                        schur_sles_param p3'', xtra_sles_param p3''] (sles_heap m2)"
  proof -
    have a12: "schur_sles_param p2' \<noteq> Some q \<and> xtra_sles_param p2' \<noteq> Some q"
      if "schur_sles_param p1 = Some q \<or> xtra_sles_param p1 = Some q" for q
      using that apart2 [of q] by blast
    have l1: "valid_or_null (schur_sles_param p1) (sles_heap m2)"
      "valid_or_null (xtra_sles_param p1) (sles_heap m2)"
      "valid_or_null (schur_sles_param p2') (sles_heap m2)"
      "valid_or_null (xtra_sles_param p2') (sles_heap m2)"
      using live_m2
      by (cases "schur_sles_param p1"; cases "xtra_sles_param p1";
          cases "schur_sles_param p2'"; cases "xtra_sles_param p2'";
          simp add: valid_or_null_Some(2))+
    from l1 v3 sx1 sx2 sx3'' a12 apart3 show ?thesis
      by (cases "schur_sles_param p1"; cases "xtra_sles_param p1";
          cases "schur_sles_param p2'"; cases "xtra_sles_param p2'";
          cases "schur_sles_param p3''"; cases "xtra_sles_param p3''")
         (auto simp: owned_apart_def map_filter_simps)
  qed
  have nested_s: "\<forall>s. schur_sles_param p1 = Some s \<longrightarrow>
              (\<exists>s' v v'. schur_sles_param p3'' = Some s' \<and>
                 heap_get (sles_heap m) s = Some v \<and> heap_get (sles_heap m2) s = Some v \<and>
                 heap_get (sles_heap m2) s' = Some v' \<and> same_settings v' v)"
    using chain [OF _ cs1 cs2] same1 by fastforce
  have nested_x: "\<forall>x. xtra_sles_param p1 = Some x \<longrightarrow>
              (\<exists>x' w w'. xtra_sles_param p3'' = Some x' \<and>
                 heap_get (sles_heap m) x = Some w \<and> heap_get (sles_heap m2) x = Some w \<and>
                 heap_get (sles_heap m2) x' = Some w' \<and> same_settings w' w)"
    using chain [OF _ cx1 cx2] same1 by fastforce
  from set2 set3 have fields: "solver p3'' = solver p1" "solver_class p3'' = solver_class p1"
    "precond p3'' = precond p1" "schur_approx p3'' = schur_approx p1"
    "cvg_param p3'' = cvg_param p1" "block11_sles_param p3'' = block11_sles_param p1"
    by (simp_all add: settings_def)
  from c1 c2 p1'' p2'' p3'' fields nested_s nested_x own_all show ?thesis
    by blast
qed

theorem copy_twice_witness:
  "\<exists>m p1 m1 m2 p3'.
     cs_param_saddle_set_solver ex_ext (Some ''alu'') (Some 0) ex_mem3 = Some (0, m) \<and>
     distinct [0 :: addr, 1, 2] \<and>
     heap_get (saddle_heap m) 0 = Some p1 \<and>
     heap_get (saddle_heap m) 1 = Some ex_saddle \<and>
     heap_get (saddle_heap m) 2 = Some ex_saddle \<and>
     owned_apart [schur_sles_param p1, xtra_sles_param p1,
                  schur_sles_param ex_saddle, xtra_sles_param ex_saddle,
                  schur_sles_param ex_saddle, xtra_sles_param ex_saddle] (sles_heap m) \<and>
     block11_sles_param p1 = Some 0 \<and> heap_get (sles_heap m) 0 = Some ex_b11 \<and>
     xtra_sles_param p1 = Some 1 \<and>
     cs_param_saddle_copy ex_ext (Some 0) (Some 1) m = Some m1 \<and>
     cs_param_saddle_copy ex_ext (Some 1) (Some 2) m1 = Some m2 \<and>
     heap_get (saddle_heap m2) 0 = Some p1 \<and>
     heap_get (saddle_heap m2) 2 = Some p3' \<and>
     solver p3' = CS_PARAM_SADDLE_SOLVER_ALU \<and>
     cvg_param p3' = cvg_param ex_saddle \<and>
     (\<exists>x' w'. xtra_sles_param p3' = Some x' \<and> x' \<noteq> 1 \<and>
        heap_get (sles_heap m2) 1 = Some (transfo_sles ex_ext ex_saddle ex_b11) \<and>
        heap_get (sles_heap m2) x' = Some w' \<and>
        same_settings w' (transfo_sles ex_ext ex_saddle ex_b11))"
proof -
  from ex_mem3_copies obtain m p1 where
    r: "cs_param_saddle_set_solver ex_ext (Some ''alu'') (Some 0) ex_mem3 = Some (0, m)"
    and p1: "heap_get (saddle_heap m) 0 = Some p1"
    and p2: "heap_get (saddle_heap m) 1 = Some ex_saddle"
    and p3: "heap_get (saddle_heap m) 2 = Some ex_saddle"
    and q1: "schur_sles_param p1 = None" "xtra_sles_param p1 = Some 1"
    and f1: "solver p1 = CS_PARAM_SADDLE_SOLVER_ALU" "cvg_param p1 = cvg_param ex_saddle"
    and x1: "heap_get (sles_heap m) 1 = Some (transfo_sles ex_ext ex_saddle ex_b11)"
    and b: "block11_sles_param p1 = Some 0" "heap_get (sles_heap m) 0 = Some ex_b11"
    by blast
  have d: "distinct [0 :: addr, 1, 2]" by simp
  have own: "owned_apart [schur_sles_param p1, xtra_sles_param p1,
                  schur_sles_param ex_saddle, xtra_sles_param ex_saddle,
                  schur_sles_param ex_saddle, xtra_sles_param ex_saddle] (sles_heap m)"
    using q1 x1 by (simp add: owned_apart_def map_filter_simps valid_or_null_def ex_saddle_def)
  from copy_twice [OF d p1 p2 p3 own b, of ex_ext] obtain m1 m2 p2' p3' where
    c: "cs_param_saddle_copy ex_ext (Some 0) (Some 1) m = Some m1"
       "cs_param_saddle_copy ex_ext (Some 1) (Some 2) m1 = Some m2"
    and h: "heap_get (saddle_heap m2) 0 = Some p1" "heap_get (saddle_heap m2) 2 = Some p3'"
    and h2: "heap_get (saddle_heap m2) 1 = Some p2'"
    and s: "solver p3' = solver p1" "cvg_param p3' = cvg_param p1"
    and n: "\<forall>x. xtra_sles_param p1 = Some x \<longrightarrow>
              (\<exists>x' w w'. xtra_sles_param p3' = Some x' \<and>
                 heap_get (sles_heap m) x = Some w \<and> heap_get (sles_heap m2) x = Some w \<and>
                 heap_get (sles_heap m2) x' = Some w' \<and> same_settings w' w)"
    and o: "owned_apart [schur_sles_param p1, xtra_sles_param p1,
                        schur_sles_param p2', xtra_sles_param p2',
                        schur_sles_param p3', xtra_sles_param p3'] (sles_heap m2)"
    by blast
  from n q1 x1 obtain x' w' where
    x': "xtra_sles_param p3' = Some x'"
      "heap_get (sles_heap m2) 1 = Some (transfo_sles ex_ext ex_saddle ex_b11)"
      "heap_get (sles_heap m2) x' = Some w'"
      "same_settings w' (transfo_sles ex_ext ex_saddle ex_b11)"
    by auto
  from o q1 x'(1) have "x' \<noteq> 1"
    by (cases "schur_sles_param p2'"; cases "xtra_sles_param p2'"; cases "schur_sles_param p3'")
       (auto simp: owned_apart_def map_filter_simps)
  with x' have
    "\<exists>x' w'. xtra_sles_param p3' = Some x' \<and> x' \<noteq> 1 \<and>
        heap_get (sles_heap m2) 1 = Some (transfo_sles ex_ext ex_saddle ex_b11) \<and>
        heap_get (sles_heap m2) x' = Some w' \<and>
        same_settings w' (transfo_sles ex_ext ex_saddle ex_b11)"
    by blast
  with r d p1 p2 p3 own b q1 c h s f1 show ?thesis by auto
qed

text \<open>
  C8 as stated fails: take three records that refer to the same (1,1)-block solver, the
  first one with verbosity 2 and, after \<open>cs_param_saddle_set_solver\<close> with "alu", with an ALU
  context of augmentation coefficient 100. After the two copies the third record is an
  ALU record of verbosity 0 and with a NULL context: the augmentation coefficient of the
  first record is 100, and reading the one of the third record dereferences NULL.
\<close>

theorem copy_twice_counterexample:
  "\<exists>m p1 m1 m2 p3'.
     cs_param_saddle_set_solver ex_ext (Some ''alu'') (Some 0) ex_mem3 = Some (0, m) \<and>
     heap_get (saddle_heap m) 0 = Some p1 \<and> verbosity p1 = 2 \<and>
     cs_param_saddle_get_augmentation_coef (Some 0) m = Some 100 \<and>
     cs_param_saddle_copy ex_ext (Some 0) (Some 1) m = Some m1 \<and>
     cs_param_saddle_copy ex_ext (Some 1) (Some 2) m1 = Some m2 \<and>
     heap_get (saddle_heap m2) 2 = Some p3' \<and>
     solver p3' = CS_PARAM_SADDLE_SOLVER_ALU \<and>
     verbosity p3' = 0 \<and> context_ptr p3' = None \<and>
     cs_param_saddle_get_augmentation_coef (Some 0) m2 = Some 100 \<and>
     cs_param_saddle_get_augmentation_coef (Some 2) m2 = None"
  using ex_mem3_copies by blast

end
